theory Spec2Isabelle
  imports Main "HOL-Library.Dlist"
begin

section \<open>The keyed state store (store.ts)\<close>

text \<open>
  \<^verbatim>\<open>AsyncState<T, TError>\<close> and \<^verbatim>\<open>TaskState\<close> of types.ts. A field that is
  \<^verbatim>\<open>null\<close> or missing (\<^verbatim>\<open>undefined\<close>) is \<open>None\<close>. Time stamps are the integer
  milliseconds of \<^verbatim>\<open>Date.now()\<close>; every function that reads the clock takes the
  reading as its argument \<open>now\<close>.
\<close>

type_synonym key = string

record ('a, 'e) AsyncState =
  data :: "'a option"
  loading :: bool
  error :: "'e option"
  retryCount :: nat
  lastUpdated :: "int option"

record ('a, 'e) TaskState = "('a, 'e) AsyncState" +
  requestId :: nat

text \<open>
  The two module-level maps. \<^verbatim>\<open>listeners\<close> maps a key to a JavaScript \<^verbatim>\<open>Set\<close> of
  listener functions: no duplicates (by function identity), iterated in insertion order.
  A listener is represented by its identity \<open>'l\<close>; the set is a distinct list that holds
  the newest member first, so it is iterated in reverse.
\<close>

record ('a, 'e, 'l) store =
  globalStore :: "key \<rightharpoonup> ('a, 'e) TaskState"
  listeners :: "key \<rightharpoonup> 'l dlist"

definition emptyStore :: "('a, 'e, 'l) store" where
  "emptyStore = \<lparr>globalStore = Map.empty, listeners = Map.empty\<rparr>"

definition getState :: "('a, 'e, 'l) store \<Rightarrow> key \<Rightarrow> ('a, 'e) TaskState option" where
  "getState s k = globalStore s k"

definition createInitialState :: "nat \<Rightarrow> ('a, 'e) TaskState" where
  "createInitialState rid =
     \<lparr>data = None, loading = False, error = None, retryCount = 0, lastUpdated = None,
      requestId = rid\<rparr>"

text \<open>The \<^verbatim>\<open>AsyncState\<close> that \<^verbatim>\<open>notifyListeners\<close> builds field by field.\<close>

definition asyncState :: "('a, 'e) TaskState \<Rightarrow> ('a, 'e) AsyncState" where
  "asyncState st =
     \<lparr>data = data st, loading = loading st, error = error st,
      retryCount = retryCount st, lastUpdated = lastUpdated st\<rparr>"

text \<open>The members of a listener set in iteration (insertion) order.\<close>

definition members :: "'l dlist \<Rightarrow> 'l list" where
  "members d = rev (list_of_dlist d)"

text \<open>
  \<^verbatim>\<open>notifyListeners\<close> calls every listener of the key with the projected state. The
  calls are returned as the list of deliveries (listener, argument), in call order; the
  caller of the model runs them.
\<close>

definition notifyListeners ::
  "('a, 'e, 'l) store \<Rightarrow> key \<Rightarrow> ('a, 'e) TaskState \<Rightarrow> ('l \<times> ('a, 'e) AsyncState) list" where
  "notifyListeners s k st =
     (case listeners s k of
        None \<Rightarrow> []
      | Some keyListeners \<Rightarrow> map (\<lambda>listener. (listener, asyncState st)) (members keyListeners))"

definition setState ::
  "('a, 'e, 'l) store \<Rightarrow> key \<Rightarrow> ('a, 'e) TaskState \<Rightarrow>
     ('a, 'e, 'l) store \<times> ('l \<times> ('a, 'e) AsyncState) list" where
  "setState s k st = (s\<lparr>globalStore := (globalStore s)(k \<mapsto> st)\<rparr>, notifyListeners s k st)"

text \<open>\<^verbatim>\<open>updateState\<close>: the partial state is the function that merges it into a state.\<close>

definition updateState ::
  "('a, 'e, 'l) store \<Rightarrow> key \<Rightarrow> (('a, 'e) TaskState \<Rightarrow> ('a, 'e) TaskState) \<Rightarrow>
     ('a, 'e, 'l) store \<times> ('l \<times> ('a, 'e) AsyncState) list" where
  "updateState s k partial =
     (case getState s k of
        Some current \<Rightarrow> setState s k (partial current)
      | None \<Rightarrow> (s, []))"

definition deleteState ::
  "('a, 'e, 'l) store \<Rightarrow> key \<Rightarrow> ('a, 'e, 'l) store \<times> ('l \<times> ('a, 'e) AsyncState) list" where
  "deleteState s k =
     (s\<lparr>globalStore := (globalStore s)(k := None)\<rparr>, notifyListeners s k (createInitialState 0))"

text \<open>
  \<^verbatim>\<open>isCacheValid(state, cacheTime)\<close>. The test \<^verbatim>\<open>!state.lastUpdated\<close> is JavaScript
  truthiness: it holds for \<^verbatim>\<open>null\<close> and also for the number 0.
\<close>

definition isCacheValid :: "('a, 'e) TaskState option \<Rightarrow> int \<Rightarrow> int \<Rightarrow> bool" where
  "isCacheValid state cacheTime now =
     (case state of
        None \<Rightarrow> False
      | Some st \<Rightarrow>
          (case lastUpdated st of
             None \<Rightarrow> False
           | Some t \<Rightarrow> if t = 0 \<or> cacheTime \<le> 0 then False else now - t < cacheTime))"

text \<open>
  \<^verbatim>\<open>subscribe\<close> adds the listener to the key's set (creating the set first when the key
  has none). The function it returns closes over the key and the listener; calling it is
  \<open>unsubscribe s k l\<close>.
\<close>

definition subscribe :: "('a, 'e, 'l) store \<Rightarrow> key \<Rightarrow> 'l \<Rightarrow> ('a, 'e, 'l) store" where
  "subscribe s k listener =
     (let keyListeners = (case listeners s k of None \<Rightarrow> Dlist.empty | Some d \<Rightarrow> d)
      in s\<lparr>listeners := (listeners s)(k \<mapsto> Dlist.insert listener keyListeners)\<rparr>)"

definition unsubscribe :: "('a, 'e, 'l) store \<Rightarrow> key \<Rightarrow> 'l \<Rightarrow> ('a, 'e, 'l) store" where
  "unsubscribe s k listener =
     (case listeners s k of
        None \<Rightarrow> s
      | Some keyListeners \<Rightarrow>
          (let keyListeners' = Dlist.remove listener keyListeners
           in if Dlist.null keyListeners'
              then s\<lparr>listeners := (listeners s)(k := None)\<rparr>
              else s\<lparr>listeners := (listeners s)(k \<mapsto> keyListeners')\<rparr>))"


section \<open>The hook \<^verbatim>\<open>useAsyncTask\<close> (useAsyncTask.ts)\<close>

text \<open>
  The file holds two revisions of the hook. The first keeps the key of the last call in
  \<^verbatim>\<open>currentTaskKeyRef\<close> and has no \<^verbatim>\<open>AbortController\<close>; the second resolves the key
  into the state \<^verbatim>\<open>resolvedTaskKey\<close> and aborts superseded calls. One record holds the
  state and the refs of an instance of either revision; the functions of a revision touch
  only the fields that revision has. Functions of the first revision carry the suffix
  \<open>_r1\<close>.

  \<open>actionCalls\<close> is not a field of the source: it counts the calls of
  \<^verbatim>\<open>actionRef.current\<close>, as a mock function would.
\<close>

record ('a, 'e, 'args) hook =
  localState :: "('a, 'e) AsyncState"
  resolvedTaskKey :: "key option"
  currentTaskKeyRef :: "key option"
  requestIdRef :: nat
  abortControllerRef :: "nat option"
  pollingTimerRef :: "nat option"
  unmountedRef :: bool
  lastArgsRef :: "'args option"
  isSyncingRef :: bool
  actionCalls :: nat

text \<open>
  \<^verbatim>\<open>taskKey\<close> is a string or a function to a string; a function may throw (\<open>Inl\<close>).
  The first revision applies it to the arguments of the call, the second to no argument.
\<close>

datatype ('x, 'e) taskKey = Static key | Derived "'x \<Rightarrow> 'e + key"

record ('x, 'e) options =
  maxRetries :: nat
  cacheTime :: int
  taskKey :: "('x, 'e) taskKey option"

text \<open>
  The world: the store module, the mounted instances of the hook (a listener of the store
  is the \<^verbatim>\<open>syncState\<close> closure of an instance, identified by the instance), and the
  \<^verbatim>\<open>AbortController\<close> objects, each a number, with the set of those whose signal is
  aborted. \<^verbatim>\<open>new AbortController()\<close> takes the next number and starts with its signal
  not aborted.
\<close>

record ('a, 'e, 'args) world =
  sharedStore :: "('a, 'e, nat) store"
  hooks :: "nat \<Rightarrow> ('a, 'e, 'args) hook"
  aborted :: "nat set"
  nextAbortController :: nat

text \<open>
  How the promise of the action settles, and what an \<^verbatim>\<open>async\<close> function has done
  when control leaves it: returned (with a value or with nothing), thrown (its promise
  rejects), or suspended at \<^verbatim>\<open>await\<close> with its closure. An action that throws before
  it returns a promise is caught by the same \<^verbatim>\<open>try\<close> block as a rejection and is the
  outcome \<open>Rejected\<close>. The listeners of the store are the \<^verbatim>\<open>syncState\<close> closures of the
  instances, which do not throw.
\<close>

datatype ('a, 'e) outcome = Fulfilled 'a | Rejected 'e

datatype ('a, 'e, 'c) result = Returned "'a option" | Threw 'e | Awaiting 'c

definition setHook ::
  "nat \<Rightarrow> (('a, 'e, 'args) hook \<Rightarrow> ('a, 'e, 'args) hook) \<Rightarrow> ('a, 'e, 'args) world \<Rightarrow>
     ('a, 'e, 'args) world" where
  "setHook h f w = w\<lparr>hooks := (hooks w)(h := f (hooks w h))\<rparr>"

definition updateLocalState ::
  "nat \<Rightarrow> (('a, 'e) AsyncState \<Rightarrow> ('a, 'e) AsyncState) \<Rightarrow> ('a, 'e, 'args) world \<Rightarrow>
     ('a, 'e, 'args) world" where
  "updateLocalState h partial w =
     (if \<not> unmountedRef (hooks w h) \<and> \<not> isSyncingRef (hooks w h)
      then setHook h (\<lambda>c. c\<lparr>localState := partial (localState c)\<rparr>) w
      else w)"

text \<open>The listener \<^verbatim>\<open>syncState\<close> of the subscribe effect, on one instance.\<close>

definition syncHook ::
  "('a, 'e) AsyncState \<Rightarrow> ('a, 'e, 'args) hook \<Rightarrow> ('a, 'e, 'args) hook" where
  "syncHook state c =
     (if \<not> unmountedRef c
      then ((c\<lparr>isSyncingRef := True\<rparr>)\<lparr>localState := state\<rparr>)\<lparr>isSyncingRef := False\<rparr>
      else c)"

definition syncState ::
  "nat \<Rightarrow> ('a, 'e) AsyncState \<Rightarrow> ('a, 'e, 'args) world \<Rightarrow> ('a, 'e, 'args) world" where
  "syncState h state w = setHook h (syncHook state) w"

text \<open>Running the listener calls of a notification, in order.\<close>

definition deliver ::
  "(nat \<times> ('a, 'e) AsyncState) list \<Rightarrow> ('a, 'e, 'args) world \<Rightarrow> ('a, 'e, 'args) world" where
  "deliver ds w = fold (\<lambda>(l, state). syncState l state) ds w"

definition storeSetState ::
  "key \<Rightarrow> ('a, 'e) TaskState \<Rightarrow> ('a, 'e, 'args) world \<Rightarrow> ('a, 'e, 'args) world" where
  "storeSetState k st w =
     (case setState (sharedStore w) k st of (s', ds) \<Rightarrow> deliver ds (w\<lparr>sharedStore := s'\<rparr>))"

definition storeDeleteState :: "key \<Rightarrow> ('a, 'e, 'args) world \<Rightarrow> ('a, 'e, 'args) world" where
  "storeDeleteState k w =
     (case deleteState (sharedStore w) k of (s', ds) \<Rightarrow> deliver ds (w\<lparr>sharedStore := s'\<rparr>))"

text \<open>\<^verbatim>\<open>if (key) { ... }\<close>: a key that is \<^verbatim>\<open>null\<close> or the empty string is falsy.\<close>

definition ifKey ::
  "key option \<Rightarrow> (key \<Rightarrow> ('a, 'e, 'args) world \<Rightarrow> ('a, 'e, 'args) world) \<Rightarrow>
     ('a, 'e, 'args) world \<Rightarrow> ('a, 'e, 'args) world" where
  "ifKey k f w = (case k of None \<Rightarrow> w | Some s \<Rightarrow> if s = [] then w else f s w)"

text \<open>
  The cache check at the head of \<^verbatim>\<open>execute\<close>: the cached state when the key is truthy,
  \<^verbatim>\<open>cacheTime > 0\<close>, the store has an entry and \<^verbatim>\<open>isCacheValid\<close> holds of it.
\<close>

definition cacheHit ::
  "('a, 'e, 'l) store \<Rightarrow> key option \<Rightarrow> int \<Rightarrow> int \<Rightarrow> ('a, 'e) TaskState option" where
  "cacheHit s k ct now =
     (case k of
        None \<Rightarrow> None
      | Some s' \<Rightarrow>
          if s' \<noteq> [] \<and> ct > 0
          then (case getState s s' of
                  None \<Rightarrow> None
                | Some cachedState \<Rightarrow>
                    if isCacheValid (Some cachedState) ct now then Some cachedState else None)
          else None)"

definition useCache ::
  "nat \<Rightarrow> ('a, 'e) TaskState \<Rightarrow> ('a, 'e, 'args) world \<Rightarrow> ('a, 'e, 'args) world" where
  "useCache h cachedState w =
     updateLocalState h
       (\<lambda>prev. prev\<lparr>data := data cachedState, loading := False, error := error cachedState,
                    retryCount := retryCount cachedState,
                    lastUpdated := lastUpdated cachedState\<rparr>) w"

text \<open>The \<^verbatim>\<open>loading\<close> entry that \<^verbatim>\<open>execute\<close> writes to the store of a keyed call.\<close>

definition setLoading ::
  "nat \<Rightarrow> key \<Rightarrow> ('a, 'e, 'args) world \<Rightarrow> ('a, 'e, 'args) world" where
  "setLoading currentRequestId k w =
     storeSetState k
       ((case getState (sharedStore w) k of
           Some existing \<Rightarrow> existing
         | None \<Rightarrow> createInitialState 0)\<lparr>loading := True, requestId := currentRequestId\<rparr>) w"

definition successState :: "'a \<Rightarrow> int \<Rightarrow> ('a, 'e) AsyncState \<Rightarrow> ('a, 'e) AsyncState" where
  "successState r now prev =
     prev\<lparr>data := Some r, loading := False, error := None, retryCount := 0,
          lastUpdated := Some now\<rparr>"

definition errorState :: "'e \<Rightarrow> nat \<Rightarrow> int \<Rightarrow> ('a, 'e) AsyncState \<Rightarrow> ('a, 'e) AsyncState" where
  "errorState err n now prev =
     prev\<lparr>loading := False, error := Some err, retryCount := n, lastUpdated := Some now\<rparr>"

text \<open>
  The objects \<^verbatim>\<open>{...successState, requestId}\<close> and \<^verbatim>\<open>{...errorState, requestId}\<close>
  written to the store: the second has no \<^verbatim>\<open>data\<close> field.
\<close>

definition successEntry :: "'a \<Rightarrow> int \<Rightarrow> nat \<Rightarrow> ('a, 'e) TaskState" where
  "successEntry r now rid =
     \<lparr>data = Some r, loading = False, error = None, retryCount = 0, lastUpdated = Some now,
      requestId = rid\<rparr>"

definition errorEntry :: "'e \<Rightarrow> nat \<Rightarrow> int \<Rightarrow> nat \<Rightarrow> ('a, 'e) TaskState" where
  "errorEntry err n now rid =
     \<lparr>data = None, loading = False, error = Some err, retryCount = n, lastUpdated = Some now,
      requestId = rid\<rparr>"

subsection \<open>Second revision\<close>

text \<open>What \<^verbatim>\<open>performAction\<close> closes over, and its parameter \<^verbatim>\<open>retryCount\<close> (\<open>retry\<close>).\<close>

record ('x, 'e, 'args) closure_r1 =
  args :: 'args
  currentOptions :: "('x, 'e) options"
  taskKeyOf :: "key option"
  currentRequestId :: nat
  retry :: nat

record ('x, 'e, 'args) closure = "('x, 'e, 'args) closure_r1" +
  abortController :: nat

text \<open>\<^verbatim>\<open>performAction\<close> up to its \<^verbatim>\<open>await\<close>: it calls the action and suspends.\<close>

definition performAction ::
  "nat \<Rightarrow> ('x, 'e, 'args) closure \<Rightarrow> ('a, 'e, 'args) world \<Rightarrow>
     ('a, 'e, 'args) world \<times> ('a, 'e, ('x, 'e, 'args) closure) result" where
  "performAction h c w = (setHook h (\<lambda>k. k\<lparr>actionCalls := actionCalls k + 1\<rparr>) w, Awaiting c)"

definition clearAbortController ::
  "nat \<Rightarrow> nat \<Rightarrow> ('a, 'e, 'args) world \<Rightarrow> ('a, 'e, 'args) world" where
  "clearAbortController h a w =
     (if abortControllerRef (hooks w h) = Some a
      then setHook h (\<lambda>k. k\<lparr>abortControllerRef := None\<rparr>) w
      else w)"

text \<open>
  \<^verbatim>\<open>performAction\<close> from its \<^verbatim>\<open>await\<close> on, when the promise of the action has settled
  with \<open>out\<close> at time \<open>now\<close>.
\<close>

definition performAction_settled ::
  "nat \<Rightarrow> ('x, 'e, 'args) closure \<Rightarrow> ('a, 'e) outcome \<Rightarrow> int \<Rightarrow> ('a, 'e, 'args) world \<Rightarrow>
     ('a, 'e, 'args) world \<times> ('a, 'e, ('x, 'e, 'args) closure) result" where
  "performAction_settled h c out now w =
     (case out of
        Fulfilled r \<Rightarrow>
          if unmountedRef (hooks w h) \<or> currentRequestId c \<noteq> requestIdRef (hooks w h)
             \<or> abortController c \<in> aborted w
          then (w, Returned None)
          else
            (let w1 = updateLocalState h (successState r now) w;
                 w2 = ifKey (taskKeyOf c)
                        (\<lambda>k. storeSetState k (successEntry r now (currentRequestId c))) w1;
                 w3 = clearAbortController h (abortController c) w2
             in (w3, Returned (Some r)))
      | Rejected err \<Rightarrow>
          if abortController c \<in> aborted w then (w, Returned None)
          else if unmountedRef (hooks w h) \<or> currentRequestId c \<noteq> requestIdRef (hooks w h)
          then (w, Returned None)
          else if retry c < maxRetries (currentOptions c)
          then performAction h (c\<lparr>retry := retry c + 1\<rparr>)
                 (updateLocalState h (\<lambda>prev. prev\<lparr>retryCount := retry c + 1\<rparr>) w)
          else
            (let w1 = updateLocalState h (errorState err (retry c) now) w;
                 w2 = ifKey (taskKeyOf c)
                        (\<lambda>k. storeSetState k (errorEntry err (retry c) now (currentRequestId c)))
                        w1;
                 w3 = clearAbortController h (abortController c) w2
             in (w3, Returned None)))"

definition abortCurrent :: "nat \<Rightarrow> ('a, 'e, 'args) world \<Rightarrow> ('a, 'e, 'args) world" where
  "abortCurrent h w =
     (case abortControllerRef (hooks w h) of
        None \<Rightarrow> w
      | Some a \<Rightarrow> w\<lparr>aborted := insert a (aborted w)\<rparr>)"

definition execute ::
  "nat \<Rightarrow> ('x, 'e) options \<Rightarrow> 'args \<Rightarrow> int \<Rightarrow> ('a, 'e, 'args) world \<Rightarrow>
     ('a, 'e, 'args) world \<times> ('a, 'e, ('x, 'e, 'args) closure) result" where
  "execute h opts as now w =
     (let w0 = setHook h (\<lambda>k. k\<lparr>lastArgsRef := Some as\<rparr>) w;
          key = resolvedTaskKey (hooks w0 h)
      in case cacheHit (sharedStore w0) key (cacheTime opts) now of
           Some cachedState \<Rightarrow> (useCache h cachedState w0, Returned (data cachedState))
         | None \<Rightarrow>
             (let w1 = abortCurrent h w0;
                  a = nextAbortController w1;
                  w2 = setHook h (\<lambda>k. k\<lparr>abortControllerRef := Some a\<rparr>)
                         (w1\<lparr>aborted := aborted w1 - {a}, nextAbortController := a + 1\<rparr>);
                  rid = requestIdRef (hooks w2 h) + 1;
                  w3 = setHook h (\<lambda>k. k\<lparr>requestIdRef := rid\<rparr>) w2;
                  w4 = updateLocalState h (\<lambda>prev. prev\<lparr>loading := True\<rparr>) w3;
                  w5 = ifKey key (setLoading rid) w4
              in performAction h
                   \<lparr>args = as, currentOptions = opts, taskKeyOf = key, currentRequestId = rid,
                    retry = 0, abortController = a\<rparr> w5))"

definition cancel :: "nat \<Rightarrow> ('a, 'e, 'args) world \<Rightarrow> ('a, 'e, 'args) world" where
  "cancel h w =
     (let w1 = setHook h (\<lambda>k. k\<lparr>requestIdRef := requestIdRef k + 1\<rparr>) w;
          w2 = setHook h (\<lambda>k. k\<lparr>abortControllerRef := None\<rparr>) (abortCurrent h w1)
      in setHook h (\<lambda>k. k\<lparr>pollingTimerRef := None\<rparr>) w2)"

definition reset :: "nat \<Rightarrow> ('a, 'e, 'args) world \<Rightarrow> ('a, 'e, 'args) world" where
  "reset h w =
     (let w1 = cancel h w;
          w2 = ifKey (resolvedTaskKey (hooks w1 h)) storeDeleteState w1;
          w3 = (if \<not> unmountedRef (hooks w2 h)
                then setHook h (\<lambda>k. k\<lparr>localState := asyncState (createInitialState 0)\<rparr>) w2
                else w2)
      in setHook h (\<lambda>k. k\<lparr>lastArgsRef := None\<rparr>) w3)"

text \<open>
  The key that \<^verbatim>\<open>taskKey\<close> gives: \<^verbatim>\<open>taskKey ? (typeof taskKey === "function" ?
  taskKey(x) : taskKey) : null\<close>. The second revision computes it for its state
  \<^verbatim>\<open>resolvedTaskKey\<close> (initialiser and effect), calling a function key with no argument.
\<close>

definition resolveTaskKey :: "('x, 'e) taskKey option \<Rightarrow> 'x \<Rightarrow> 'e + key option" where
  "resolveTaskKey tk x =
     (case tk of
        None \<Rightarrow> Inr None
      | Some (Static s) \<Rightarrow> Inr (if s = [] then None else Some s)
      | Some (Derived f) \<Rightarrow> (case f x of Inl e \<Rightarrow> Inl e | Inr s \<Rightarrow> Inr (Some s)))"

text \<open>
  The subscribe effect, run on mount and whenever \<^verbatim>\<open>resolvedTaskKey\<close> has changed, and
  its cleanup (the \<^verbatim>\<open>unsubscribe\<close> it returned, for the key \<open>k\<close> it subscribed).
\<close>

definition subscribeEffect :: "nat \<Rightarrow> ('a, 'e, 'args) world \<Rightarrow> ('a, 'e, 'args) world" where
  "subscribeEffect h w =
     ifKey (resolvedTaskKey (hooks w h))
       (\<lambda>k w'.
          (let w1 = (case getState (sharedStore w') k of
                       None \<Rightarrow> w'
                     | Some existingState \<Rightarrow>
                         setHook h
                           (\<lambda>c. ((c\<lparr>isSyncingRef := True\<rparr>)
                                  \<lparr>localState :=
                                     \<lparr>data = data existingState, loading = loading existingState,
                                      error = error existingState,
                                      retryCount = retryCount existingState,
                                      lastUpdated = lastUpdated existingState\<rparr>\<rparr>)
                                  \<lparr>isSyncingRef := False\<rparr>) w')
           in w1\<lparr>sharedStore := subscribe (sharedStore w1) k h\<rparr>)) w"

definition subscribeCleanup :: "nat \<Rightarrow> key \<Rightarrow> ('a, 'e, 'args) world \<Rightarrow> ('a, 'e, 'args) world" where
  "subscribeCleanup h k w = w\<lparr>sharedStore := unsubscribe (sharedStore w) k h\<rparr>"

text \<open>The cleanup on unmount: the signal is aborted, the ref keeps the controller.\<close>

definition unmount :: "nat \<Rightarrow> ('a, 'e, 'args) world \<Rightarrow> ('a, 'e, 'args) world" where
  "unmount h w = abortCurrent h (setHook h (\<lambda>k. k\<lparr>unmountedRef := True\<rparr>) w)"

text \<open>
  The promise that \<^verbatim>\<open>execute\<close> returned settles when \<^verbatim>\<open>performAction\<close> and the retries
  it chains have returned. \<open>settleAll\<close> feeds the successive settlements of the action
  (outcome and time) to a suspended call; with none left the call is still suspended.
\<close>

fun settleAll ::
  "nat \<Rightarrow> ('x, 'e, 'args) closure \<Rightarrow> (('a, 'e) outcome \<times> int) list \<Rightarrow> ('a, 'e, 'args) world \<Rightarrow>
     ('a, 'e, 'args) world \<times> ('a, 'e, ('x, 'e, 'args) closure) result" where
  "settleAll h c [] w = (w, Awaiting c)"
| "settleAll h c ((out, now) # rest) w =
     (case performAction_settled h c out now w of
        (w', Awaiting c') \<Rightarrow> settleAll h c' rest w'
      | (w', r) \<Rightarrow> (w', r))"

definition initialHook :: "key option \<Rightarrow> ('a, 'e, 'args) hook" where
  "initialHook k =
     \<lparr>localState = asyncState (createInitialState 0), resolvedTaskKey = k,
      currentTaskKeyRef = None, requestIdRef = 0, abortControllerRef = None,
      pollingTimerRef = None, unmountedRef = False, lastArgsRef = None,
      isSyncingRef = False, actionCalls = 0\<rparr>"

definition initialWorld :: "(nat \<Rightarrow> key option) \<Rightarrow> ('a, 'e, 'args) world" where
  "initialWorld ks =
     \<lparr>sharedStore = emptyStore, hooks = (\<lambda>h. initialHook (ks h)), aborted = {},
      nextAbortController = 0\<rparr>"


subsection \<open>First revision\<close>

definition performAction_r1 ::
  "nat \<Rightarrow> ('x, 'e, 'args) closure_r1 \<Rightarrow> ('a, 'e, 'args) world \<Rightarrow>
     ('a, 'e, 'args) world \<times> ('a, 'e, ('x, 'e, 'args) closure_r1) result" where
  "performAction_r1 h c w =
     (setHook h (\<lambda>k. k\<lparr>actionCalls := actionCalls k + 1\<rparr>) w, Awaiting c)"

definition performAction_settled_r1 ::
  "nat \<Rightarrow> ('x, 'e, 'args) closure_r1 \<Rightarrow> ('a, 'e) outcome \<Rightarrow> int \<Rightarrow> ('a, 'e, 'args) world \<Rightarrow>
     ('a, 'e, 'args) world \<times> ('a, 'e, ('x, 'e, 'args) closure_r1) result" where
  "performAction_settled_r1 h c out now w =
     (case out of
        Fulfilled r \<Rightarrow>
          if unmountedRef (hooks w h) \<or> currentRequestId c \<noteq> requestIdRef (hooks w h)
          then (w, Returned None)
          else
            (let w1 = updateLocalState h (successState r now) w;
                 w2 = ifKey (taskKeyOf c)
                        (\<lambda>k. storeSetState k (successEntry r now (currentRequestId c))) w1
             in (w2, Returned (Some r)))
      | Rejected err \<Rightarrow>
          if unmountedRef (hooks w h) \<or> currentRequestId c \<noteq> requestIdRef (hooks w h)
          then (w, Returned None)
          else if retry c < maxRetries (currentOptions c)
          then performAction_r1 h (c\<lparr>retry := retry c + 1\<rparr>)
                 (updateLocalState h (\<lambda>prev. prev\<lparr>retryCount := retry c + 1\<rparr>) w)
          else
            (let w1 = updateLocalState h (errorState err (retry c) now) w;
                 w2 = ifKey (taskKeyOf c)
                        (\<lambda>k. storeSetState k (errorEntry err (retry c) now (currentRequestId c)))
                        w1
             in (w2, Returned None)))"

text \<open>
  \<^verbatim>\<open>execute\<close> of the first revision computes the key from the arguments of the call;
  a key function that throws rejects the promise before anything else happens.
\<close>

definition execute_r1 ::
  "nat \<Rightarrow> ('args, 'e) options \<Rightarrow> 'args \<Rightarrow> int \<Rightarrow> ('a, 'e, 'args) world \<Rightarrow>
     ('a, 'e, 'args) world \<times> ('a, 'e, ('args, 'e, 'args) closure_r1) result" where
  "execute_r1 h opts as now w =
     (let w0 = setHook h (\<lambda>k. k\<lparr>lastArgsRef := Some as\<rparr>) w
      in case resolveTaskKey (taskKey opts) as of
           Inl e \<Rightarrow> (w0, Threw e)
         | Inr key \<Rightarrow>
             (let w1 = setHook h (\<lambda>k. k\<lparr>currentTaskKeyRef := key\<rparr>) w0
              in case cacheHit (sharedStore w1) key (cacheTime opts) now of
                   Some cachedState \<Rightarrow> (useCache h cachedState w1, Returned (data cachedState))
                 | None \<Rightarrow>
                     (let rid = requestIdRef (hooks w1 h) + 1;
                          w2 = setHook h (\<lambda>k. k\<lparr>requestIdRef := rid\<rparr>) w1;
                          w3 = updateLocalState h (\<lambda>prev. prev\<lparr>loading := True\<rparr>) w2;
                          w4 = ifKey key (setLoading rid) w3
                      in performAction_r1 h
                           \<lparr>args = as, currentOptions = opts, taskKeyOf = key,
                            currentRequestId = rid, retry = 0\<rparr> w4)))"

definition cancel_r1 :: "nat \<Rightarrow> ('a, 'e, 'args) world \<Rightarrow> ('a, 'e, 'args) world" where
  "cancel_r1 h w =
     setHook h (\<lambda>k. k\<lparr>pollingTimerRef := None\<rparr>)
       (setHook h (\<lambda>k. k\<lparr>requestIdRef := requestIdRef k + 1\<rparr>) w)"

definition reset_r1 :: "nat \<Rightarrow> ('a, 'e, 'args) world \<Rightarrow> ('a, 'e, 'args) world" where
  "reset_r1 h w =
     (let w1 = cancel_r1 h w;
          w2 = ifKey (currentTaskKeyRef (hooks w1 h)) storeDeleteState w1;
          w3 = (if \<not> unmountedRef (hooks w2 h)
                then setHook h (\<lambda>k. k\<lparr>localState := asyncState (createInitialState 0)\<rparr>) w2
                else w2)
      in setHook h (\<lambda>k. k\<lparr>lastArgsRef := None, currentTaskKeyRef := None\<rparr>) w3)"

text \<open>
  The subscribe effect of the first revision, for the \<^verbatim>\<open>taskKey\<close> option of the render:
  \<^verbatim>\<open>subscribe(typeof taskKey === "function" ? "__dynamic__" : taskKey, syncState)\<close>.
  It does not read the store.
\<close>

definition subscriptionKey_r1 :: "('x, 'e) taskKey option \<Rightarrow> key option" where
  "subscriptionKey_r1 tk =
     (case tk of
        None \<Rightarrow> None
      | Some (Static s) \<Rightarrow> if s = [] then None else Some s
      | Some (Derived f) \<Rightarrow> Some ''__dynamic__'')"

definition subscribeEffect_r1 ::
  "nat \<Rightarrow> ('x, 'e) taskKey option \<Rightarrow> ('a, 'e, 'args) world \<Rightarrow> ('a, 'e, 'args) world" where
  "subscribeEffect_r1 h tk w =
     (case subscriptionKey_r1 tk of
        None \<Rightarrow> w
      | Some k \<Rightarrow> w\<lparr>sharedStore := subscribe (sharedStore w) k h\<rparr>)"

definition unmount_r1 :: "nat \<Rightarrow> ('a, 'e, 'args) world \<Rightarrow> ('a, 'e, 'args) world" where
  "unmount_r1 h w = setHook h (\<lambda>k. k\<lparr>unmountedRef := True\<rparr>) w"

fun settleAll_r1 ::
  "nat \<Rightarrow> ('x, 'e, 'args) closure_r1 \<Rightarrow> (('a, 'e) outcome \<times> int) list \<Rightarrow>
     ('a, 'e, 'args) world \<Rightarrow>
     ('a, 'e, 'args) world \<times> ('a, 'e, ('x, 'e, 'args) closure_r1) result" where
  "settleAll_r1 h c [] w = (w, Awaiting c)"
| "settleAll_r1 h c ((out, now) # rest) w =
     (case performAction_settled_r1 h c out now w of
        (w', Awaiting c') \<Rightarrow> settleAll_r1 h c' rest w'
      | (w', r) \<Rightarrow> (w', r))"


subsection \<open>Observations\<close>

text \<open>The listeners subscribed to a key, in the order in which a notification calls them.\<close>

definition subscribersOf :: "('a, 'e, 'l) store \<Rightarrow> key \<Rightarrow> 'l list" where
  "subscribersOf s k = (case listeners s k of None \<Rightarrow> [] | Some d \<Rightarrow> members d)"

text \<open>An instance whose \<^verbatim>\<open>updateLocalState\<close> takes effect: mounted, and not inside
  \<^verbatim>\<open>syncState\<close> (which no call of \<^verbatim>\<open>execute\<close> or continuation of it ever is).\<close>

definition mounted :: "('a, 'e, 'args) world \<Rightarrow> nat \<Rightarrow> bool" where
  "mounted w h = (\<not> unmountedRef (hooks w h) \<and> \<not> isSyncingRef (hooks w h))"


text \<open>A suspended call whose guards will pass: the instance is mounted, no later call
  or \<^verbatim>\<open>cancel\<close> has moved the counter, and its signal is not aborted.\<close>

definition live :: "('a, 'e, 'args) world \<Rightarrow> nat \<Rightarrow> ('x, 'e, 'args) closure \<Rightarrow> bool" where
  "live w h c =
     (mounted w h \<and> currentRequestId c = requestIdRef (hooks w h)
      \<and> abortController c \<notin> aborted w)"

definition live_r1 :: "('a, 'e, 'args) world \<Rightarrow> nat \<Rightarrow> ('x, 'e, 'args) closure_r1 \<Rightarrow> bool" where
  "live_r1 w h c = (mounted w h \<and> currentRequestId c = requestIdRef (hooks w h))"


text \<open>The instance's \<^verbatim>\<open>syncState\<close> listens to the key, and the key is truthy: then a
  \<^verbatim>\<open>setState\<close> of the key replaces the local state of the instance.\<close>

definition subscribed :: "('a, 'e, 'args) world \<Rightarrow> nat \<Rightarrow> key option \<Rightarrow> bool" where
  "subscribed w h k =
     (case k of
        None \<Rightarrow> False
      | Some s \<Rightarrow> s \<noteq> [] \<and> h \<in> set (subscribersOf (sharedStore w) s))"

text \<open>An action that rejects on every attempt: the settlements for a list of errors
  and times.\<close>

definition rejections :: "('e \<times> int) list \<Rightarrow> (('a, 'e) outcome \<times> int) list" where
  "rejections es = map (\<lambda>(e, t). (Rejected e, t)) es"


subsection \<open>Interleavings\<close>

text \<open>
  Everything runs on one thread; between two \<^verbatim>\<open>await\<close>s nothing else runs. An
  interleaving is therefore a list of events, each one a call of an operation of some
  instance or the resumption of a suspended \<^verbatim>\<open>performAction\<close> with the outcome of its
  action. \<open>step\<close> runs one event and drops what the call returns.
\<close>

datatype ('a, 'e, 'x, 'args) event =
    Execute nat "('x, 'e) options" 'args int
  | Settle nat "('x, 'e, 'args) closure" "('a, 'e) outcome" int
  | Cancel nat
  | Reset nat
  | Unmount nat
  | SubscribeEffect nat
  | SubscribeCleanup nat key
  | SetResolvedTaskKey nat "key option"
  | Execute_r1 nat "('args, 'e) options" 'args int
  | Settle_r1 nat "('args, 'e, 'args) closure_r1" "('a, 'e) outcome" int
  | Cancel_r1 nat
  | Reset_r1 nat
  | Unmount_r1 nat
  | SubscribeEffect_r1 nat "('args, 'e) taskKey option"

fun step :: "('a, 'e, 'x, 'args) event \<Rightarrow> ('a, 'e, 'args) world \<Rightarrow> ('a, 'e, 'args) world" where
  "step (Execute h opts as now) w = fst (execute h opts as now w)"
| "step (Settle h c out now) w = fst (performAction_settled h c out now w)"
| "step (Cancel h) w = cancel h w"
| "step (Reset h) w = reset h w"
| "step (Unmount h) w = unmount h w"
| "step (SubscribeEffect h) w = subscribeEffect h w"
| "step (SubscribeCleanup h k) w = subscribeCleanup h k w"
| "step (SetResolvedTaskKey h k) w = setHook h (\<lambda>c. c\<lparr>resolvedTaskKey := k\<rparr>) w"
| "step (Execute_r1 h opts as now) w = fst (execute_r1 h opts as now w)"
| "step (Settle_r1 h c out now) w = fst (performAction_settled_r1 h c out now w)"
| "step (Cancel_r1 h) w = cancel_r1 h w"
| "step (Reset_r1 h) w = reset_r1 h w"
| "step (Unmount_r1 h) w = unmount_r1 h w"
| "step (SubscribeEffect_r1 h tk) w = subscribeEffect_r1 h tk w"

definition run ::
  "('a, 'e, 'x, 'args) event list \<Rightarrow> ('a, 'e, 'args) world \<Rightarrow> ('a, 'e, 'args) world" where
  "run evs w = fold step evs w"

subsection \<open>Example worlds\<close>

text \<open>Options with no key function; a world of instances that were just mounted, without
  a key or all with the key \<open>K\<close>, instance 0 subscribed to it.\<close>

definition someOptions :: "nat \<Rightarrow> int \<Rightarrow> ('x, string) options" where
  "someOptions n ct = \<lparr>maxRetries = n, cacheTime = ct, taskKey = None\<rparr>"

definition unkeyedWorld :: "(nat, string, unit) world" where
  "unkeyedWorld = initialWorld (\<lambda>h. None)"

definition keyedWorld :: "(nat, string, unit) world" where
  "keyedWorld = subscribeEffect 0 (initialWorld (\<lambda>h. Some ''K''))"

text \<open>Two calls of \<^verbatim>\<open>execute\<close> on instance 0 of the unkeyed world, at times 100 and 110,
  and the closures they suspend with; the world where the second call's action has
  fulfilled with 2 (at 120) and the first call's action is still pending.\<close>

definition startedWorld :: "(nat, string, unit) world" where
  "startedWorld = fst (execute 0 (someOptions 0 0 :: (unit, string) options) () 100 unkeyedWorld)"

definition firstCall :: "(unit, string, unit) closure" where
  "firstCall = \<lparr>args = (), currentOptions = someOptions 0 0, taskKeyOf = None,
                currentRequestId = 1, retry = 0, abortController = 0\<rparr>"

definition secondCall :: "(unit, string, unit) closure" where
  "secondCall = \<lparr>args = (), currentOptions = someOptions 0 0, taskKeyOf = None,
                 currentRequestId = 2, retry = 0, abortController = 1\<rparr>"

definition raceWorld :: "(nat, string, unit) world" where
  "raceWorld =
     fst (performAction_settled 0 secondCall (Fulfilled 2) 120
       (fst (execute 0 (someOptions 0 0 :: (unit, string) options) () 110 startedWorld)))"

text \<open>The first call is started, \<^verbatim>\<open>cancel()\<close> is called, then the action fulfils with 7.\<close>

definition cancelledWorld :: "(nat, string, unit) world" where
  "cancelledWorld = fst (performAction_settled 0 firstCall (Fulfilled 7) 200 (cancel 0 startedWorld))"

text \<open>The first call's action fulfils with 1 at 120; a second call at 130, whose action
  rejects at 140.\<close>

definition succeededWorld :: "(nat, string, unit) world" where
  "succeededWorld = fst (performAction_settled 0 firstCall (Fulfilled 1) 120 startedWorld)"

definition failedWorld :: "(nat, string, unit) world" where
  "failedWorld =
     fst (performAction_settled 0 secondCall (Rejected ''boom'') 140
       (fst (execute 0 (someOptions 0 0 :: (unit, string) options) () 130 succeededWorld)))"

text \<open>A call at 100 with \<^verbatim>\<open>maxRetries = 1\<close> on instance 0 of the unkeyed world.\<close>

definition retryingCall :: "(unit, string, unit) closure" where
  "retryingCall = \<lparr>args = (), currentOptions = someOptions 1 0, taskKeyOf = None,
                   currentRequestId = 1, retry = 0, abortController = 0\<rparr>"

definition retryStartedWorld :: "(nat, string, unit) world" where
  "retryStartedWorld =
     fst (execute 0 (someOptions 1 0 :: (unit, string) options) () 100 unkeyedWorld)"

text \<open>The keyed instance 0 with \<^verbatim>\<open>cacheTime = 1000\<close>: a call at 100 whose action rejects
  at 200, or fulfils with 4 at 200.\<close>

definition keyedCall :: "(unit, string, unit) closure" where
  "keyedCall = \<lparr>args = (), currentOptions = someOptions 0 1000, taskKeyOf = Some ''K'',
                currentRequestId = 1, retry = 0, abortController = 0\<rparr>"

definition keyedFailedWorld :: "(nat, string, unit) world" where
  "keyedFailedWorld =
     fst (performAction_settled 0 keyedCall (Rejected ''boom'') 200
       (fst (execute 0 (someOptions 0 1000 :: (unit, string) options) () 100 keyedWorld)))"

definition keyedSucceededWorld :: "(nat, string, unit) world" where
  "keyedSucceededWorld =
     fst (performAction_settled 0 keyedCall (Fulfilled 4) 200
       (fst (execute 0 (someOptions 0 1000 :: (unit, string) options) () 100 keyedWorld)))"

text \<open>A key function of the first revision, \<^verbatim>\<open>(id) => `user-${id}`\<close>, and a world
  whose store already has an entry for the key \<^verbatim>\<open>user-1\<close>.\<close>

definition userKey :: "(string, string) taskKey" where
  "userKey = Derived (\<lambda>id. Inr (''user-'' @ id))"

definition userWorld :: "(nat, string, string) world" where
  "userWorld = storeSetState ''user-1'' (successEntry 5 50 1) (initialWorld (\<lambda>h. None))"


section \<open>The store: notification and subscription\<close>

lemma distinct_members: "distinct (members d)"
  by (simp add: members_def)

lemma count_list_distinct: "distinct xs \<Longrightarrow> count_list xs x = (if x \<in> set xs then 1 else 0)"
  by (induction xs) auto

lemma distinct_subscribersOf: "distinct (subscribersOf s k)"
  by (simp add: subscribersOf_def distinct_members split: option.splits)

lemma subscribersOf_globalStore [simp]:
  "subscribersOf (s\<lparr>globalStore := g\<rparr>) k = subscribersOf s k"
  by (simp add: subscribersOf_def)

lemma subscribersOf_emptyStore: "subscribersOf emptyStore k = []"
  by (simp add: subscribersOf_def emptyStore_def)

lemma notifyListeners_eq:
  "notifyListeners s k st = map (\<lambda>l. (l, asyncState st)) (subscribersOf s k)"
  by (simp add: notifyListeners_def subscribersOf_def split: option.splits)

lemma Dlist_insert_idem: "Dlist.insert l (Dlist.insert l d) = Dlist.insert l d"
  by (rule dlist_eqI) simp

lemma Dlist_remove_insert: "Dlist.remove l (Dlist.insert l d) = Dlist.remove l d"
  by (rule dlist_eqI) (simp add: distinct_remove1_removeAll List.insert_def)

lemma Dlist_null_iff: "Dlist.null d \<longleftrightarrow> list_of_dlist d = []"
  by (simp add: Dlist.null_def)

lemma list_of_dlist_remove_all:
  "list_of_dlist (Dlist.remove l d) = removeAll l (list_of_dlist d)"
  by (simp add: distinct_remove1_removeAll)

lemma removeAll_Nil_iff: "removeAll l xs = [] \<longleftrightarrow> set xs \<subseteq> {l}"
  by (induction xs) auto

lemma Nil_removeAll_iff: "[] = removeAll l xs \<longleftrightarrow> set xs \<subseteq> {l}"
  by (induction xs) auto

lemma rev_removeAll: "rev (removeAll l xs) = removeAll l (rev xs)"
  by (induction xs) auto

lemma subscribersOf_subscribe:
  "subscribersOf (subscribe s k l) k' =
     (if k' = k
      then (if l \<in> set (subscribersOf s k) then subscribersOf s k else subscribersOf s k @ [l])
      else subscribersOf s k')"
  by (auto simp: subscribersOf_def subscribe_def members_def Let_def split: option.splits)

lemma subscribe_idem: "subscribe (subscribe s k l) k l = subscribe s k l"
  by (simp add: subscribe_def Let_def Dlist_insert_idem)

lemma subscribersOf_unsubscribe:
  "subscribersOf (unsubscribe s k l) k' =
     (if k' = k then removeAll l (subscribersOf s k) else subscribersOf s k')"
  by (simp add: subscribersOf_def unsubscribe_def members_def Let_def Dlist_null_iff
        list_of_dlist_remove_all removeAll_Nil_iff Nil_removeAll_iff rev_removeAll
        del: list_of_dlist_remove split: option.splits)

lemma listeners_unsubscribe:
  "listeners (unsubscribe s k l) k =
     (if set (subscribersOf s k) \<subseteq> {l} then None
      else map_option (Dlist.remove l) (listeners s k))"
  by (simp add: subscribersOf_def unsubscribe_def members_def Let_def Dlist_null_iff
        list_of_dlist_remove_all removeAll_Nil_iff del: list_of_dlist_remove
        split: option.splits)

lemma listeners_subscribe_same:
  "listeners (subscribe s k l) k =
     Some (Dlist.insert l (case listeners s k of None \<Rightarrow> Dlist.empty | Some d \<Rightarrow> d))"
  by (simp add: subscribe_def Let_def)

text \<open>
  C9. \<^verbatim>\<open>setState(key, state)\<close> overwrites the entry of the key and leaves the listener
  sets alone; it calls the listeners of that key, in order, each with the projection of
  the state to the five fields of \<^verbatim>\<open>AsyncState\<close> (no \<^verbatim>\<open>requestId\<close>); every listener
  \<open>l\<close> is called once if it is subscribed to the key and not at all otherwise (so a
  listener of other keys only is not called); and a second call with the same state
  notifies again, in the same way.
\<close>

theorem setState_overwrites_and_notifies:
  "globalStore (fst (setState s k st)) = (globalStore s)(k \<mapsto> st)
   \<and> listeners (fst (setState s k st)) = listeners s
   \<and> snd (setState s k st) = map (\<lambda>l. (l, asyncState st)) (subscribersOf s k)
   \<and> count_list (map fst (snd (setState s k st))) l
       = (if l \<in> set (subscribersOf s k) then 1 else 0)
   \<and> snd (setState (fst (setState s k st)) k st) = snd (setState s k st)
   \<and> asyncState st = \<lparr>data = data st, loading = loading st, error = error st,
        retryCount = retryCount st, lastUpdated = lastUpdated st\<rparr>"
  by (simp add: setState_def notifyListeners_eq comp_def count_list_distinct
        distinct_subscribersOf asyncState_def)

theorem setState_overwrites_and_notifies_witness:
  "snd (setState (subscribe (subscribe (subscribe emptyStore ''K'' (1::nat)) ''K'' 2) ''J'' 3)
          ''K'' (createInitialState 5 :: (nat, string) TaskState))
     = [(1, asyncState (createInitialState 5)), (2, asyncState (createInitialState 5))]
   \<and> count_list (map fst (snd (setState
          (subscribe (subscribe (subscribe emptyStore ''K'' (1::nat)) ''K'' 2) ''J'' 3)
          ''K'' (createInitialState 5 :: (nat, string) TaskState)))) 3 = 0"
  using setState_overwrites_and_notifies
          [of "subscribe (subscribe (subscribe emptyStore ''K'' (1::nat)) ''K'' 2) ''J'' 3"
              "''K''" "createInitialState 5 :: (nat, string) TaskState" 3]
  by (simp add: subscribersOf_subscribe subscribersOf_emptyStore)

text \<open>
  C10. Subscribing the same listener to the same key a second time changes nothing: the
  key's set holds it once, so one \<^verbatim>\<open>setState\<close> of the key calls it once. One call of the
  returned unsubscribe function (either of the two: both close over the same key and
  listener) removes it, and the key's set is deleted from the map exactly when no other
  listener is left in it.
\<close>

theorem subscribe_twice_registers_once:
  "subscribe (subscribe s k l) k l = subscribe s k l
   \<and> count_list (subscribersOf (subscribe (subscribe s k l) k l) k) l = 1
   \<and> count_list (map fst (snd (setState (subscribe (subscribe s k l) k l) k st))) l = 1
   \<and> l \<notin> set (subscribersOf (unsubscribe (subscribe (subscribe s k l) k l) k l) k)
   \<and> listeners (unsubscribe (subscribe (subscribe s k l) k l) k l) k
       = (if set (subscribersOf s k) \<subseteq> {l} then None
          else map_option (Dlist.remove l) (listeners s k))"
proof -
  have in_set: "l \<in> set (subscribersOf (subscribe s k l) k)"
    by (simp add: subscribersOf_subscribe)
  have once: "count_list (subscribersOf (subscribe s k l) k) l = 1"
    using in_set by (simp add: count_list_distinct distinct_subscribersOf)
  have notified: "count_list (map fst (snd (setState (subscribe s k l) k st))) l = 1"
    using in_set
    by (simp add: setState_def notifyListeners_eq comp_def count_list_distinct
          distinct_subscribersOf)
  have gone: "l \<notin> set (subscribersOf (unsubscribe (subscribe s k l) k l) k)"
    by (simp add: subscribersOf_unsubscribe)
  have subset: "set (subscribersOf (subscribe s k l) k) \<subseteq> {l} \<longleftrightarrow> set (subscribersOf s k) \<subseteq> {l}"
    by (auto simp: subscribersOf_subscribe)
  have released: "listeners (unsubscribe (subscribe s k l) k l) k
       = (if set (subscribersOf s k) \<subseteq> {l} then None
          else map_option (Dlist.remove l) (listeners s k))"
    unfolding listeners_unsubscribe subset
    by (auto simp: listeners_subscribe_same Dlist_remove_insert subscribersOf_def members_def
          split: option.splits)
  show ?thesis
    unfolding subscribe_idem using once notified gone released by simp
qed

theorem subscribe_twice_registers_once_witness:
  "count_list (map fst (snd (setState (subscribe (subscribe emptyStore ''K'' (7::nat)) ''K'' 7)
       ''K'' (createInitialState 0 :: (nat, string) TaskState)))) 7 = 1
   \<and> listeners (unsubscribe (subscribe (subscribe
        (emptyStore :: (nat, string, nat) store) ''K'' 7) ''K'' 7) ''K'' 7) ''K'' = None"
  using subscribe_twice_registers_once
          [of "emptyStore :: (nat, string, nat) store" "''K''" 7
              "createInitialState 0 :: (nat, string) TaskState"]
  by (simp add: subscribersOf_emptyStore subscribe_idem)

lemma isCacheValid_iff:
  "isCacheValid state ct now \<longleftrightarrow>
     (\<exists>st t. state = Some st \<and> lastUpdated st = Some t \<and> t \<noteq> 0 \<and> 0 < ct \<and> now - t < ct)"
  by (auto simp: isCacheValid_def split: option.splits)


section \<open>The hook: how each operation changes the world\<close>

lemma setHook_simps [simp]:
  "hooks (setHook h f w) = (hooks w)(h := f (hooks w h))"
  "sharedStore (setHook h f w) = sharedStore w"
  "aborted (setHook h f w) = aborted w"
  "nextAbortController (setHook h f w) = nextAbortController w"
  by (simp_all add: setHook_def)

lemma updateLocalState_simps [simp]:
  "sharedStore (updateLocalState h p w) = sharedStore w"
  "aborted (updateLocalState h p w) = aborted w"
  "nextAbortController (updateLocalState h p w) = nextAbortController w"
  "hooks (updateLocalState h p w) x =
     (if x = h \<and> mounted w h then (hooks w h)\<lparr>localState := p (localState (hooks w h))\<rparr>
      else hooks w x)"
  by (simp_all add: updateLocalState_def mounted_def)

lemma syncHook_idem: "syncHook st (syncHook st c) = syncHook st c"
  by (simp add: syncHook_def)

lemma syncHook_fields [simp]:
  "unmountedRef (syncHook st c) = unmountedRef c"
  "requestIdRef (syncHook st c) = requestIdRef c"
  "abortControllerRef (syncHook st c) = abortControllerRef c"
  "resolvedTaskKey (syncHook st c) = resolvedTaskKey c"
  "currentTaskKeyRef (syncHook st c) = currentTaskKeyRef c"
  "pollingTimerRef (syncHook st c) = pollingTimerRef c"
  "lastArgsRef (syncHook st c) = lastArgsRef c"
  "actionCalls (syncHook st c) = actionCalls c"
  "isSyncingRef (syncHook st c) = (unmountedRef c \<and> isSyncingRef c)"
  "localState (syncHook st c) = (if unmountedRef c then localState c else st)"
  by (simp_all add: syncHook_def)

lemma deliver_frame [simp]:
  "sharedStore (deliver ds w) = sharedStore w"
  "aborted (deliver ds w) = aborted w"
  "nextAbortController (deliver ds w) = nextAbortController w"
  by (induction ds arbitrary: w; simp add: deliver_def syncState_def split_def)+

lemma hooks_deliver:
  "hooks (deliver (map (\<lambda>l. (l, st)) ls) w) x =
     (if x \<in> set ls then syncHook st (hooks w x) else hooks w x)"
proof (induction ls arbitrary: w)
  case Nil
  show ?case by (simp add: deliver_def)
next
  case (Cons l ls)
  have step: "deliver (map (\<lambda>l. (l, st)) (l # ls)) w
                = deliver (map (\<lambda>l. (l, st)) ls) (syncState l st w)"
    by (simp add: deliver_def)
  show ?case
    unfolding step Cons.IH by (simp add: syncState_def syncHook_idem)
qed

lemma storeSetState_simps [simp]:
  "sharedStore (storeSetState k st w)
     = (sharedStore w)\<lparr>globalStore := (globalStore (sharedStore w))(k \<mapsto> st)\<rparr>"
  "aborted (storeSetState k st w) = aborted w"
  "nextAbortController (storeSetState k st w) = nextAbortController w"
  "hooks (storeSetState k st w) x =
     (if x \<in> set (subscribersOf (sharedStore w) k) then syncHook (asyncState st) (hooks w x)
      else hooks w x)"
  by (simp_all add: storeSetState_def setState_def notifyListeners_eq hooks_deliver)

lemma storeDeleteState_simps [simp]:
  "sharedStore (storeDeleteState k w)
     = (sharedStore w)\<lparr>globalStore := (globalStore (sharedStore w))(k := None)\<rparr>"
  "aborted (storeDeleteState k w) = aborted w"
  "nextAbortController (storeDeleteState k w) = nextAbortController w"
  "hooks (storeDeleteState k w) x =
     (if x \<in> set (subscribersOf (sharedStore w) k)
      then syncHook (asyncState (createInitialState 0)) (hooks w x)
      else hooks w x)"
  by (simp_all add: storeDeleteState_def deleteState_def notifyListeners_eq hooks_deliver)

lemma clearAbortController_simps [simp]:
  "sharedStore (clearAbortController h a w) = sharedStore w"
  "aborted (clearAbortController h a w) = aborted w"
  "nextAbortController (clearAbortController h a w) = nextAbortController w"
  "hooks (clearAbortController h a w) x =
     (if x = h \<and> abortControllerRef (hooks w h) = Some a
      then (hooks w h)\<lparr>abortControllerRef := None\<rparr> else hooks w x)"
  by (simp_all add: clearAbortController_def)

lemma abortCurrent_simps [simp]:
  "sharedStore (abortCurrent h w) = sharedStore w"
  "hooks (abortCurrent h w) = hooks w"
  "nextAbortController (abortCurrent h w) = nextAbortController w"
  "aborted (abortCurrent h w) =
     (case abortControllerRef (hooks w h) of None \<Rightarrow> aborted w | Some a \<Rightarrow> insert a (aborted w))"
  by (simp_all add: abortCurrent_def split: option.splits)

lemma ifKey_simps:
  "ifKey None f w = w"
  "ifKey (Some k) f w = (if k = [] then w else f k w)"
  by (simp_all add: ifKey_def)

lemma settled_discard:
  "unmountedRef (hooks w h) \<or> currentRequestId c \<noteq> requestIdRef (hooks w h)
     \<or> abortController c \<in> aborted w
   \<Longrightarrow> performAction_settled h c out now w = (w, Returned None)"
  by (cases out) (auto simp: performAction_settled_def)

lemma settled_discard_r1:
  "unmountedRef (hooks w h) \<or> currentRequestId c \<noteq> requestIdRef (hooks w h)
   \<Longrightarrow> performAction_settled_r1 h c out now w = (w, Returned None)"
  by (cases out) (auto simp: performAction_settled_r1_def)

lemma settled_retry:
  assumes "live w h c" "retry c < maxRetries (currentOptions c)"
  shows "performAction_settled h c (Rejected e) now w =
           (setHook h (\<lambda>k. k\<lparr>actionCalls := actionCalls k + 1\<rparr>)
              (updateLocalState h (\<lambda>prev. prev\<lparr>retryCount := retry c + 1\<rparr>) w),
            Awaiting (c\<lparr>retry := retry c + 1\<rparr>))"
  using assms by (simp add: performAction_settled_def performAction_def live_def mounted_def)

lemma settled_final:
  assumes "live w h c" "\<not> retry c < maxRetries (currentOptions c)"
  shows "performAction_settled h c (Rejected e) now w =
           (clearAbortController h (abortController c)
              (ifKey (taskKeyOf c)
                 (\<lambda>k. storeSetState k (errorEntry e (retry c) now (currentRequestId c)))
                 (updateLocalState h (errorState e (retry c) now) w)),
            Returned None)"
  using assms by (simp add: performAction_settled_def live_def mounted_def Let_def)

lemma settled_success:
  assumes "live w h c"
  shows "performAction_settled h c (Fulfilled r) now w =
           (clearAbortController h (abortController c)
              (ifKey (taskKeyOf c)
                 (\<lambda>k. storeSetState k (successEntry r now (currentRequestId c)))
                 (updateLocalState h (successState r now) w)),
            Returned (Some r))"
  using assms by (simp add: performAction_settled_def live_def mounted_def Let_def)

lemma localState_final:
  assumes "live w h c" "\<not> retry c < maxRetries (currentOptions c)"
  shows "localState (hooks (fst (performAction_settled h c (Rejected e) now w)) h) =
           \<lparr>data = (if subscribed w h (taskKeyOf c) then None else data (localState (hooks w h))),
            loading = False, error = Some e, retryCount = retry c, lastUpdated = Some now\<rparr>"
  using assms
  by (cases "taskKeyOf c")
     (auto simp: settled_final ifKey_simps subscribed_def live_def mounted_def errorState_def
        errorEntry_def asyncState_def)

lemma localState_success:
  assumes "live w h c"
  shows "localState (hooks (fst (performAction_settled h c (Fulfilled r) now w)) h) =
           \<lparr>data = Some r, loading = False, error = None, retryCount = 0, lastUpdated = Some now\<rparr>"
  using assms
  by (cases "taskKeyOf c")
     (auto simp: settled_success ifKey_simps live_def mounted_def successState_def
        successEntry_def asyncState_def)

lemma settleAll_rejections:
  assumes "live w h c" "retry c + length es \<le> maxRetries (currentOptions c)"
  shows "\<exists>w'. settleAll h c (rejections es) w = (w', Awaiting (c\<lparr>retry := retry c + length es\<rparr>))
      \<and> sharedStore w' = sharedStore w \<and> aborted w' = aborted w
      \<and> hooks w' h = (hooks w h)
           \<lparr>localState := (localState (hooks w h))
              \<lparr>retryCount := (if es = [] then retryCount (localState (hooks w h))
                               else retry c + length es)\<rparr>,
            actionCalls := actionCalls (hooks w h) + length es\<rparr>"
  using assms
proof (induction es arbitrary: w c)
  case Nil
  then show ?case by (simp add: rejections_def)
next
  case (Cons et es)
  obtain e t where et: "et = (e, t)" by (cases et)
  let ?w1 = "setHook h (\<lambda>k. k\<lparr>actionCalls := actionCalls k + 1\<rparr>)
              (updateLocalState h (\<lambda>prev. prev\<lparr>retryCount := retry c + 1\<rparr>) w)"
  let ?c1 = "c\<lparr>retry := retry c + 1\<rparr>"
  have lt: "retry c < maxRetries (currentOptions c)" using Cons.prems by simp
  have step: "performAction_settled h c (Rejected e) t w = (?w1, Awaiting ?c1)"
    using Cons.prems(1) lt by (rule settled_retry)
  have live1: "live ?w1 h ?c1"
    using Cons.prems(1) by (simp add: live_def mounted_def)
  have bound: "retry ?c1 + length es \<le> maxRetries (currentOptions ?c1)"
    using Cons.prems(2) by simp
  from Cons.IH[OF live1 bound] obtain w' where
    IH: "settleAll h ?c1 (rejections es) ?w1 = (w', Awaiting (?c1\<lparr>retry := retry ?c1 + length es\<rparr>))"
        "sharedStore w' = sharedStore ?w1" "aborted w' = aborted ?w1"
        "hooks w' h = (hooks ?w1 h)
           \<lparr>localState := (localState (hooks ?w1 h))
              \<lparr>retryCount := (if es = [] then retryCount (localState (hooks ?w1 h))
                               else retry ?c1 + length es)\<rparr>,
            actionCalls := actionCalls (hooks ?w1 h) + length es\<rparr>"
    by blast
  have run: "settleAll h c (rejections (et # es)) w = settleAll h ?c1 (rejections es) ?w1"
    by (simp add: rejections_def et step)
  show ?case
    unfolding run using IH Cons.prems(1)
    by (auto simp: live_def mounted_def)
qed


lemma settleAll_append:
  "settleAll h c (xs @ ys) w =
     (case settleAll h c xs w of
        (w', Awaiting c') \<Rightarrow> settleAll h c' ys w'
      | (w', r) \<Rightarrow> (w', r))"
proof (induction xs arbitrary: c w)
  case Nil
  show ?case by simp
next
  case (Cons x xs)
  obtain out now where x: "x = (out, now)" by (cases x)
  show ?case
    by (simp add: x Cons.IH split: prod.splits result.splits)
qed

lemma execute_miss:
  assumes "cacheHit (sharedStore w) (resolvedTaskKey (hooks w h)) (cacheTime opts) t = None"
  shows "execute h opts as t w =
     (setHook h (\<lambda>k. k\<lparr>actionCalls := actionCalls k + 1\<rparr>)
        (ifKey (resolvedTaskKey (hooks w h)) (setLoading (requestIdRef (hooks w h) + 1))
           (updateLocalState h (\<lambda>prev. prev\<lparr>loading := True\<rparr>)
              (setHook h (\<lambda>k. k\<lparr>requestIdRef := requestIdRef (hooks w h) + 1\<rparr>)
                 (setHook h (\<lambda>k. k\<lparr>abortControllerRef := Some (nextAbortController w)\<rparr>)
                    ((abortCurrent h (setHook h (\<lambda>k. k\<lparr>lastArgsRef := Some as\<rparr>) w))
                       \<lparr>aborted := aborted (abortCurrent h
                                     (setHook h (\<lambda>k. k\<lparr>lastArgsRef := Some as\<rparr>) w))
                                   - {nextAbortController w},
                        nextAbortController := nextAbortController w + 1\<rparr>))))),
      Awaiting \<lparr>args = as, currentOptions = opts, taskKeyOf = resolvedTaskKey (hooks w h),
                currentRequestId = requestIdRef (hooks w h) + 1, retry = 0,
                abortController = nextAbortController w\<rparr>)"
  using assms by (simp add: execute_def Let_def performAction_def)

lemma execute_hit:
  assumes "cacheHit (sharedStore w) (resolvedTaskKey (hooks w h)) (cacheTime opts) t = Some cs"
  shows "execute h opts as t w =
           (useCache h cs (setHook h (\<lambda>k. k\<lparr>lastArgsRef := Some as\<rparr>) w), Returned (data cs))"
  using assms by (simp add: execute_def Let_def)

lemma setLoading_simps [simp]:
  "sharedStore (setLoading rid k w)
     = (sharedStore w)\<lparr>globalStore := (globalStore (sharedStore w))
          (k \<mapsto> (case getState (sharedStore w) k of Some existing \<Rightarrow> existing
                   | None \<Rightarrow> createInitialState 0)\<lparr>loading := True, requestId := rid\<rparr>)\<rparr>"
  "aborted (setLoading rid k w) = aborted w"
  "nextAbortController (setLoading rid k w) = nextAbortController w"
  "hooks (setLoading rid k w) x =
     (if x \<in> set (subscribersOf (sharedStore w) k)
      then syncHook (asyncState ((case getState (sharedStore w) k of Some existing \<Rightarrow> existing
                   | None \<Rightarrow> createInitialState 0)\<lparr>loading := True, requestId := rid\<rparr>))
             (hooks w x)
      else hooks w x)"
  by (simp_all add: setLoading_def)

lemma execute_started:
  assumes miss: "cacheHit (sharedStore w) (resolvedTaskKey (hooks w h)) (cacheTime opts) t = None"
      and m: "mounted w h"
  shows "live (fst (execute h opts as t w)) h
           \<lparr>args = as, currentOptions = opts, taskKeyOf = resolvedTaskKey (hooks w h),
            currentRequestId = requestIdRef (hooks w h) + 1, retry = 0,
            abortController = nextAbortController w\<rparr>"
    and "loading (localState (hooks (fst (execute h opts as t w)) h))"
    and "actionCalls (hooks (fst (execute h opts as t w)) h) = actionCalls (hooks w h) + 1"
    and "requestIdRef (hooks (fst (execute h opts as t w)) h) = requestIdRef (hooks w h) + 1"
    and "listeners (sharedStore (fst (execute h opts as t w))) = listeners (sharedStore w)"
    and "\<not> subscribed w h (resolvedTaskKey (hooks w h)) \<Longrightarrow>
           data (localState (hooks (fst (execute h opts as t w)) h))
             = data (localState (hooks w h))"
  using m unfolding execute_miss[OF miss]
  by (cases "resolvedTaskKey (hooks w h)";
      auto simp: live_def mounted_def ifKey_simps subscribed_def asyncState_def)+


lemma subscribed_cong:
  "listeners (sharedStore w') = listeners (sharedStore w) \<Longrightarrow> subscribed w' h k = subscribed w h k"
  by (simp add: subscribed_def subscribersOf_def split: option.splits)

lemma actionCalls_final:
  assumes "live w h c" "\<not> retry c < maxRetries (currentOptions c)"
  shows "actionCalls (hooks (fst (performAction_settled h c (Rejected e) now w)) h)
           = actionCalls (hooks w h)"
  using assms
  by (cases "taskKeyOf c") (auto simp: settled_final ifKey_simps live_def mounted_def)

lemma exhaust:
  assumes l: "live w1 h c" and r0: "retry c = 0"
      and len: "length es = maxRetries (currentOptions c)"
  shows "\<exists>w2. settleAll h c (rejections (es @ [(e, t)])) w1 = (w2, Returned None)
      \<and> localState (hooks w2 h) =
           \<lparr>data = (if subscribed w1 h (taskKeyOf c) then None
                     else data (localState (hooks w1 h))),
            loading = False, error = Some e, retryCount = length es, lastUpdated = Some t\<rparr>
      \<and> actionCalls (hooks w2 h) = actionCalls (hooks w1 h) + length es"
proof -
  let ?c' = "c\<lparr>retry := retry c + length es\<rparr>"
  from settleAll_rejections[OF l, of es] r0 len obtain w' where
    run: "settleAll h c (rejections es) w1 = (w', Awaiting ?c')"
    and st: "sharedStore w' = sharedStore w1" and ab: "aborted w' = aborted w1"
    and hk: "hooks w' h = (hooks w1 h)
           \<lparr>localState := (localState (hooks w1 h))
              \<lparr>retryCount := (if es = [] then retryCount (localState (hooks w1 h))
                               else retry c + length es)\<rparr>,
            actionCalls := actionCalls (hooks w1 h) + length es\<rparr>"
    by auto
  have l': "live w' h ?c'"
    using l by (simp add: live_def mounted_def hk ab)
  have fin: "\<not> retry ?c' < maxRetries (currentOptions ?c')"
    using r0 len by simp
  obtain w2 where last: "performAction_settled h ?c' (Rejected e) t w' = (w2, Returned None)"
    using settled_final[OF l' fin] by blast
  have w2: "fst (performAction_settled h ?c' (Rejected e) t w') = w2"
    by (simp add: last)
  have sub: "subscribed w' h (taskKeyOf c) = subscribed w1 h (taskKeyOf c)"
    by (rule subscribed_cong) (simp add: st)
  have split: "rejections (es @ [(e, t)]) = rejections es @ [(Rejected e, t)]"
    by (simp add: rejections_def)
  have all: "settleAll h c (rejections (es @ [(e, t)])) w1 = (w2, Returned None)"
    unfolding split settleAll_append run by (simp add: last)
  have ls: "localState (hooks w2 h) =
           \<lparr>data = (if subscribed w1 h (taskKeyOf c) then None
                     else data (localState (hooks w1 h))),
            loading = False, error = Some e, retryCount = length es, lastUpdated = Some t\<rparr>"
    using localState_final[OF l' fin, of e t] r0 unfolding w2 by (simp add: sub hk)
  have ac: "actionCalls (hooks w2 h) = actionCalls (hooks w1 h) + length es"
    using actionCalls_final[OF l' fin, of e t] unfolding w2 by (simp add: hk)
  show ?thesis using all ls ac by blast
qed

lemma exhaustion_r2:
  assumes m: "mounted w h" and mr: "maxRetries opts = 3"
      and d: "data (localState (hooks w h)) = None"
      and miss: "cacheHit (sharedStore w) (resolvedTaskKey (hooks w h)) (cacheTime opts) t = None"
  shows "\<exists>w1 c w2. execute h opts as t w = (w1, Awaiting c)
      \<and> actionCalls (hooks w1 h) = actionCalls (hooks w h) + 1
      \<and> settleAll h c (rejections [(e0, t0), (e1, t1), (e2, t2), (e3, t3)]) w1
          = (w2, Returned None)
      \<and> localState (hooks w2 h) =
           \<lparr>data = None, loading = False, error = Some e3, retryCount = 3,
            lastUpdated = Some t3\<rparr>
      \<and> actionCalls (hooks w2 h) = actionCalls (hooks w h) + 4"
proof -
  let ?c = "\<lparr>args = as, currentOptions = opts, taskKeyOf = resolvedTaskKey (hooks w h),
            currentRequestId = requestIdRef (hooks w h) + 1, retry = 0,
            abortController = nextAbortController w\<rparr>"
  obtain w1 where ex: "execute h opts as t w = (w1, Awaiting ?c)"
    using execute_miss[OF miss, of as] by blast
  have w1: "fst (execute h opts as t w) = w1"
    by (simp add: ex)
  note started = execute_started[OF miss m, of as, unfolded w1]
  have sub: "subscribed w1 h (taskKeyOf ?c) = subscribed w h (resolvedTaskKey (hooks w h))"
    using subscribed_cong[OF started(5)] by simp
  have d1: "\<not> subscribed w h (resolvedTaskKey (hooks w h)) \<Longrightarrow>
              data (localState (hooks w1 h)) = None"
    using started(6) d by simp
  have len: "length [(e0, t0), (e1, t1), (e2, t2)] = maxRetries (currentOptions ?c)"
    using mr by simp
  have r0: "retry ?c = 0" by simp
  from exhaust[OF started(1) r0 len, of e3 t3]
  obtain w2 where
    run: "settleAll h ?c (rejections [(e0, t0), (e1, t1), (e2, t2), (e3, t3)]) w1
            = (w2, Returned None)"
    and ls: "localState (hooks w2 h) =
           \<lparr>data = (if subscribed w1 h (taskKeyOf ?c) then None
                     else data (localState (hooks w1 h))),
            loading = False, error = Some e3, retryCount = 3, lastUpdated = Some t3\<rparr>"
    and ac: "actionCalls (hooks w2 h) = actionCalls (hooks w1 h) + 3"
    by auto
  have ls': "localState (hooks w2 h) =
           \<lparr>data = None, loading = False, error = Some e3, retryCount = 3,
            lastUpdated = Some t3\<rparr>"
    using ls d1 unfolding sub by auto
  have ac': "actionCalls (hooks w2 h) = actionCalls (hooks w h) + 4"
    using ac started(3) by simp
  show ?thesis
    using ex run ls' ac' started(3) by blast
qed

subsection \<open>The same for the first revision\<close>

lemma settled_retry_r1:
  assumes "live_r1 w h c" "retry c < maxRetries (currentOptions c)"
  shows "performAction_settled_r1 h c (Rejected e) now w =
           (setHook h (\<lambda>k. k\<lparr>actionCalls := actionCalls k + 1\<rparr>)
              (updateLocalState h (\<lambda>prev. prev\<lparr>retryCount := retry c + 1\<rparr>) w),
            Awaiting (c\<lparr>retry := retry c + 1\<rparr>))"
  using assms
  by (simp add: performAction_settled_r1_def performAction_r1_def live_r1_def mounted_def)

lemma settled_final_r1:
  assumes "live_r1 w h c" "\<not> retry c < maxRetries (currentOptions c)"
  shows "performAction_settled_r1 h c (Rejected e) now w =
           (ifKey (taskKeyOf c)
              (\<lambda>k. storeSetState k (errorEntry e (retry c) now (currentRequestId c)))
              (updateLocalState h (errorState e (retry c) now) w),
            Returned None)"
  using assms by (simp add: performAction_settled_r1_def live_r1_def mounted_def Let_def)

lemma settled_success_r1:
  assumes "live_r1 w h c"
  shows "performAction_settled_r1 h c (Fulfilled r) now w =
           (ifKey (taskKeyOf c)
              (\<lambda>k. storeSetState k (successEntry r now (currentRequestId c)))
              (updateLocalState h (successState r now) w),
            Returned (Some r))"
  using assms by (simp add: performAction_settled_r1_def live_r1_def mounted_def Let_def)

lemma localState_final_r1:
  assumes "live_r1 w h c" "\<not> retry c < maxRetries (currentOptions c)"
  shows "localState (hooks (fst (performAction_settled_r1 h c (Rejected e) now w)) h) =
           \<lparr>data = (if subscribed w h (taskKeyOf c) then None else data (localState (hooks w h))),
            loading = False, error = Some e, retryCount = retry c, lastUpdated = Some now\<rparr>"
  using assms
  by (cases "taskKeyOf c")
     (auto simp: settled_final_r1 ifKey_simps subscribed_def live_r1_def mounted_def
        errorState_def errorEntry_def asyncState_def)

lemma localState_success_r1:
  assumes "live_r1 w h c"
  shows "localState (hooks (fst (performAction_settled_r1 h c (Fulfilled r) now w)) h) =
           \<lparr>data = Some r, loading = False, error = None, retryCount = 0, lastUpdated = Some now\<rparr>"
  using assms
  by (cases "taskKeyOf c")
     (auto simp: settled_success_r1 ifKey_simps live_r1_def mounted_def successState_def
        successEntry_def asyncState_def)

lemma actionCalls_final_r1:
  assumes "live_r1 w h c" "\<not> retry c < maxRetries (currentOptions c)"
  shows "actionCalls (hooks (fst (performAction_settled_r1 h c (Rejected e) now w)) h)
           = actionCalls (hooks w h)"
  using assms
  by (cases "taskKeyOf c") (auto simp: settled_final_r1 ifKey_simps live_r1_def mounted_def)

lemma settleAll_rejections_r1:
  assumes "live_r1 w h c" "retry c + length es \<le> maxRetries (currentOptions c)"
  shows "\<exists>w'. settleAll_r1 h c (rejections es) w
                 = (w', Awaiting (c\<lparr>retry := retry c + length es\<rparr>))
      \<and> sharedStore w' = sharedStore w
      \<and> hooks w' h = (hooks w h)
           \<lparr>localState := (localState (hooks w h))
              \<lparr>retryCount := (if es = [] then retryCount (localState (hooks w h))
                               else retry c + length es)\<rparr>,
            actionCalls := actionCalls (hooks w h) + length es\<rparr>"
  using assms
proof (induction es arbitrary: w c)
  case Nil
  then show ?case by (simp add: rejections_def)
next
  case (Cons et es)
  obtain e t where et: "et = (e, t)" by (cases et)
  let ?w1 = "setHook h (\<lambda>k. k\<lparr>actionCalls := actionCalls k + 1\<rparr>)
              (updateLocalState h (\<lambda>prev. prev\<lparr>retryCount := retry c + 1\<rparr>) w)"
  let ?c1 = "c\<lparr>retry := retry c + 1\<rparr>"
  have lt: "retry c < maxRetries (currentOptions c)" using Cons.prems by simp
  have step: "performAction_settled_r1 h c (Rejected e) t w = (?w1, Awaiting ?c1)"
    using Cons.prems(1) lt by (rule settled_retry_r1)
  have live1: "live_r1 ?w1 h ?c1"
    using Cons.prems(1) by (simp add: live_r1_def mounted_def)
  have bound: "retry ?c1 + length es \<le> maxRetries (currentOptions ?c1)"
    using Cons.prems(2) by simp
  from Cons.IH[OF live1 bound] obtain w' where
    IH: "settleAll_r1 h ?c1 (rejections es) ?w1
           = (w', Awaiting (?c1\<lparr>retry := retry ?c1 + length es\<rparr>))"
        "sharedStore w' = sharedStore ?w1"
        "hooks w' h = (hooks ?w1 h)
           \<lparr>localState := (localState (hooks ?w1 h))
              \<lparr>retryCount := (if es = [] then retryCount (localState (hooks ?w1 h))
                               else retry ?c1 + length es)\<rparr>,
            actionCalls := actionCalls (hooks ?w1 h) + length es\<rparr>"
    by blast
  have run: "settleAll_r1 h c (rejections (et # es)) w = settleAll_r1 h ?c1 (rejections es) ?w1"
    by (simp add: rejections_def et step)
  show ?case
    unfolding run using IH Cons.prems(1)
    by (auto simp: live_r1_def mounted_def)
qed

lemma settleAll_append_r1:
  "settleAll_r1 h c (xs @ ys) w =
     (case settleAll_r1 h c xs w of
        (w', Awaiting c') \<Rightarrow> settleAll_r1 h c' ys w'
      | (w', r) \<Rightarrow> (w', r))"
proof (induction xs arbitrary: c w)
  case Nil
  show ?case by simp
next
  case (Cons x xs)
  obtain out now where x: "x = (out, now)" by (cases x)
  show ?case
    by (simp add: x Cons.IH split: prod.splits result.splits)
qed

lemma execute_miss_r1:
  assumes "resolveTaskKey (taskKey opts) as = Inr key"
      and "cacheHit (sharedStore w) key (cacheTime opts) t = None"
  shows "execute_r1 h opts as t w =
     (setHook h (\<lambda>k. k\<lparr>actionCalls := actionCalls k + 1\<rparr>)
        (ifKey key (setLoading (requestIdRef (hooks w h) + 1))
           (updateLocalState h (\<lambda>prev. prev\<lparr>loading := True\<rparr>)
              (setHook h (\<lambda>k. k\<lparr>requestIdRef := requestIdRef (hooks w h) + 1\<rparr>)
                 (setHook h (\<lambda>k. k\<lparr>currentTaskKeyRef := key\<rparr>)
                    (setHook h (\<lambda>k. k\<lparr>lastArgsRef := Some as\<rparr>) w))))),
      Awaiting \<lparr>args = as, currentOptions = opts, taskKeyOf = key,
                currentRequestId = requestIdRef (hooks w h) + 1, retry = 0\<rparr>)"
  using assms by (simp add: execute_r1_def Let_def performAction_r1_def)

lemma execute_hit_r1:
  assumes "resolveTaskKey (taskKey opts) as = Inr key"
      and "cacheHit (sharedStore w) key (cacheTime opts) t = Some cs"
  shows "execute_r1 h opts as t w =
           (useCache h cs
              (setHook h (\<lambda>k. k\<lparr>currentTaskKeyRef := key\<rparr>)
                 (setHook h (\<lambda>k. k\<lparr>lastArgsRef := Some as\<rparr>) w)),
            Returned (data cs))"
  using assms by (simp add: execute_r1_def Let_def)

lemma execute_started_r1:
  assumes key: "resolveTaskKey (taskKey opts) as = Inr key"
      and miss: "cacheHit (sharedStore w) key (cacheTime opts) t = None"
      and m: "mounted w h"
  shows "live_r1 (fst (execute_r1 h opts as t w)) h
           \<lparr>args = as, currentOptions = opts, taskKeyOf = key,
            currentRequestId = requestIdRef (hooks w h) + 1, retry = 0\<rparr>"
    and "loading (localState (hooks (fst (execute_r1 h opts as t w)) h))"
    and "actionCalls (hooks (fst (execute_r1 h opts as t w)) h) = actionCalls (hooks w h) + 1"
    and "requestIdRef (hooks (fst (execute_r1 h opts as t w)) h) = requestIdRef (hooks w h) + 1"
    and "listeners (sharedStore (fst (execute_r1 h opts as t w))) = listeners (sharedStore w)"
    and "\<not> subscribed w h key \<Longrightarrow>
           data (localState (hooks (fst (execute_r1 h opts as t w)) h))
             = data (localState (hooks w h))"
  using m unfolding execute_miss_r1[OF key miss]
  by (cases key; auto simp: live_r1_def mounted_def ifKey_simps subscribed_def asyncState_def)+

lemma exhaust_r1:
  assumes l: "live_r1 w1 h c" and r0: "retry c = 0"
      and len: "length es = maxRetries (currentOptions c)"
  shows "\<exists>w2. settleAll_r1 h c (rejections (es @ [(e, t)])) w1 = (w2, Returned None)
      \<and> localState (hooks w2 h) =
           \<lparr>data = (if subscribed w1 h (taskKeyOf c) then None
                     else data (localState (hooks w1 h))),
            loading = False, error = Some e, retryCount = length es, lastUpdated = Some t\<rparr>
      \<and> actionCalls (hooks w2 h) = actionCalls (hooks w1 h) + length es"
proof -
  let ?c' = "c\<lparr>retry := retry c + length es\<rparr>"
  from settleAll_rejections_r1[OF l, of es] r0 len obtain w' where
    run: "settleAll_r1 h c (rejections es) w1 = (w', Awaiting ?c')"
    and st: "sharedStore w' = sharedStore w1"
    and hk: "hooks w' h = (hooks w1 h)
           \<lparr>localState := (localState (hooks w1 h))
              \<lparr>retryCount := (if es = [] then retryCount (localState (hooks w1 h))
                               else retry c + length es)\<rparr>,
            actionCalls := actionCalls (hooks w1 h) + length es\<rparr>"
    by auto
  have l': "live_r1 w' h ?c'"
    using l by (simp add: live_r1_def mounted_def hk)
  have fin: "\<not> retry ?c' < maxRetries (currentOptions ?c')"
    using r0 len by simp
  obtain w2 where last: "performAction_settled_r1 h ?c' (Rejected e) t w' = (w2, Returned None)"
    using settled_final_r1[OF l' fin] by blast
  have w2: "fst (performAction_settled_r1 h ?c' (Rejected e) t w') = w2"
    by (simp add: last)
  have sub: "subscribed w' h (taskKeyOf c) = subscribed w1 h (taskKeyOf c)"
    by (rule subscribed_cong) (simp add: st)
  have split: "rejections (es @ [(e, t)]) = rejections es @ [(Rejected e, t)]"
    by (simp add: rejections_def)
  have all: "settleAll_r1 h c (rejections (es @ [(e, t)])) w1 = (w2, Returned None)"
    unfolding split settleAll_append_r1 run by (simp add: last)
  have ls: "localState (hooks w2 h) =
           \<lparr>data = (if subscribed w1 h (taskKeyOf c) then None
                     else data (localState (hooks w1 h))),
            loading = False, error = Some e, retryCount = length es, lastUpdated = Some t\<rparr>"
    using localState_final_r1[OF l' fin, of e t] r0 unfolding w2 by (simp add: sub hk)
  have ac: "actionCalls (hooks w2 h) = actionCalls (hooks w1 h) + length es"
    using actionCalls_final_r1[OF l' fin, of e t] unfolding w2 by (simp add: hk)
  show ?thesis using all ls ac by blast
qed

lemma exhaustion_r1:
  assumes m: "mounted w h" and mr: "maxRetries opts = 3"
      and d: "data (localState (hooks w h)) = None"
      and key: "resolveTaskKey (taskKey opts) as = Inr key"
      and miss: "cacheHit (sharedStore w) key (cacheTime opts) t = None"
  shows "\<exists>w1 c w2. execute_r1 h opts as t w = (w1, Awaiting c)
      \<and> actionCalls (hooks w1 h) = actionCalls (hooks w h) + 1
      \<and> settleAll_r1 h c (rejections [(e0, t0), (e1, t1), (e2, t2), (e3, t3)]) w1
          = (w2, Returned None)
      \<and> localState (hooks w2 h) =
           \<lparr>data = None, loading = False, error = Some e3, retryCount = 3,
            lastUpdated = Some t3\<rparr>
      \<and> actionCalls (hooks w2 h) = actionCalls (hooks w h) + 4"
proof -
  let ?c = "\<lparr>args = as, currentOptions = opts, taskKeyOf = key,
            currentRequestId = requestIdRef (hooks w h) + 1, retry = 0\<rparr>"
  obtain w1 where ex: "execute_r1 h opts as t w = (w1, Awaiting ?c)"
    using execute_miss_r1[OF key miss] by blast
  have w1: "fst (execute_r1 h opts as t w) = w1"
    by (simp add: ex)
  note started = execute_started_r1[OF key miss m, unfolded w1]
  have sub: "subscribed w1 h (taskKeyOf ?c) = subscribed w h key"
    using subscribed_cong[OF started(5)] by simp
  have d1: "\<not> subscribed w h key \<Longrightarrow> data (localState (hooks w1 h)) = None"
    using started(6) d by simp
  have len: "length [(e0, t0), (e1, t1), (e2, t2)] = maxRetries (currentOptions ?c)"
    using mr by simp
  have r0: "retry ?c = 0" by simp
  from exhaust_r1[OF started(1) r0 len, of e3 t3]
  obtain w2 where
    run: "settleAll_r1 h ?c (rejections [(e0, t0), (e1, t1), (e2, t2), (e3, t3)]) w1
            = (w2, Returned None)"
    and ls: "localState (hooks w2 h) =
           \<lparr>data = (if subscribed w1 h (taskKeyOf ?c) then None
                     else data (localState (hooks w1 h))),
            loading = False, error = Some e3, retryCount = 3, lastUpdated = Some t3\<rparr>"
    and ac: "actionCalls (hooks w2 h) = actionCalls (hooks w1 h) + 3"
    by auto
  have ls': "localState (hooks w2 h) =
           \<lparr>data = None, loading = False, error = Some e3, retryCount = 3,
            lastUpdated = Some t3\<rparr>"
    using ls d1 unfolding sub by auto
  have ac': "actionCalls (hooks w2 h) = actionCalls (hooks w h) + 4"
    using ac started(3) by simp
  show ?thesis
    using ex run ls' ac' started(3) by blast
qed


section \<open>The request generation\<close>

lemma ifKey_requestIdRef:
  assumes "\<And>k w. requestIdRef (hooks (f k w) h) = requestIdRef (hooks w h)"
  shows "requestIdRef (hooks (ifKey key f w) h) = requestIdRef (hooks w h)"
  using assms by (simp add: ifKey_def split: option.splits)

lemma requestIdRef_settled:
  "requestIdRef (hooks (fst (performAction_settled h' c out now w)) h) = requestIdRef (hooks w h)"
  by (cases out)
     (auto simp: performAction_settled_def performAction_def Let_def ifKey_requestIdRef)

lemma requestIdRef_settled_r1:
  "requestIdRef (hooks (fst (performAction_settled_r1 h' c out now w)) h)
     = requestIdRef (hooks w h)"
  by (cases out)
     (auto simp: performAction_settled_r1_def performAction_r1_def Let_def ifKey_requestIdRef)

lemma requestIdRef_execute:
  "requestIdRef (hooks w h) \<le> requestIdRef (hooks (fst (execute h' opts as now w)) h)"
  by (auto simp: execute_def Let_def performAction_def useCache_def ifKey_requestIdRef
        split: option.splits)

lemma requestIdRef_execute_r1:
  "requestIdRef (hooks w h) \<le> requestIdRef (hooks (fst (execute_r1 h' opts as now w)) h)"
  by (auto simp: execute_r1_def Let_def performAction_r1_def useCache_def ifKey_requestIdRef
        split: option.splits sum.splits)

lemma requestIdRef_cancel:
  "requestIdRef (hooks w h) \<le> requestIdRef (hooks (cancel h' w) h)"
  by (simp add: cancel_def Let_def)

lemma requestIdRef_cancel_r1:
  "requestIdRef (hooks w h) \<le> requestIdRef (hooks (cancel_r1 h' w) h)"
  by (simp add: cancel_r1_def)

lemma requestIdRef_reset:
  "requestIdRef (hooks w h) \<le> requestIdRef (hooks (reset h' w) h)"
  using requestIdRef_cancel[of w h h']
  by (auto simp: reset_def Let_def ifKey_requestIdRef)

lemma requestIdRef_reset_r1:
  "requestIdRef (hooks w h) \<le> requestIdRef (hooks (reset_r1 h' w) h)"
  using requestIdRef_cancel_r1[of w h h']
  by (auto simp: reset_r1_def Let_def ifKey_requestIdRef)

lemma requestIdRef_step:
  "requestIdRef (hooks w h) \<le> requestIdRef (hooks (step ev w) h)"
proof (cases ev)
  case (SubscribeEffect h')
  then show ?thesis
    by (auto simp: subscribeEffect_def ifKey_def Let_def split: option.splits)
qed (auto simp: requestIdRef_settled requestIdRef_settled_r1 requestIdRef_execute
       requestIdRef_execute_r1 requestIdRef_cancel requestIdRef_cancel_r1 requestIdRef_reset
       requestIdRef_reset_r1 unmount_def unmount_r1_def subscribeCleanup_def
       subscribeEffect_r1_def split: option.splits)

lemma requestIdRef_run:
  "requestIdRef (hooks w h) \<le> requestIdRef (hooks (run evs w) h)"
proof (induction evs arbitrary: w)
  case Nil
  show ?case by (simp add: run_def)
next
  case (Cons ev evs)
  have "requestIdRef (hooks w h) \<le> requestIdRef (hooks (step ev w) h)"
    by (rule requestIdRef_step)
  also have "\<dots> \<le> requestIdRef (hooks (run evs (step ev w)) h)"
    by (rule Cons.IH)
  finally show ?case by (simp add: run_def)
qed


section \<open>Race control\<close>

lemmas run_defs = execute_def performAction_def performAction_settled_def Let_def
  cacheHit_def useCache_def ifKey_def setLoading_def abortCurrent_def clearAbortController_def
  successState_def errorState_def successEntry_def errorEntry_def cancel_def
  unkeyedWorld_def keyedWorld_def initialWorld_def initialHook_def someOptions_def
  createInitialState_def asyncState_def emptyStore_def updateLocalState_def setHook_def
  firstCall_def secondCall_def startedWorld_def raceWorld_def cancelledWorld_def
  mounted_def isCacheValid_def getState_def

lemma execute_allocates:
  assumes "cacheHit (sharedStore w) (resolvedTaskKey (hooks w h)) (cacheTime opts) t = None"
  shows "\<exists>w1 c. execute h opts as t w = (w1, Awaiting c)
      \<and> currentRequestId c = requestIdRef (hooks w1 h)
      \<and> requestIdRef (hooks w1 h) = requestIdRef (hooks w h) + 1"
  unfolding execute_miss[OF assms]
  by (cases "resolvedTaskKey (hooks w h)") (auto simp: ifKey_simps)

lemma execute_allocates_r1:
  assumes "resolveTaskKey (taskKey opts) as = Inr key"
      and "cacheHit (sharedStore w) key (cacheTime opts) t = None"
  shows "\<exists>w1 c. execute_r1 h opts as t w = (w1, Awaiting c)
      \<and> currentRequestId c = requestIdRef (hooks w1 h)
      \<and> requestIdRef (hooks w1 h) = requestIdRef (hooks w h) + 1"
  unfolding execute_miss_r1[OF assms]
  by (cases key) (auto simp: ifKey_simps)

text \<open>
  C1. In both revisions: when the action of a call settles (fulfilled or rejected) and
  the generation \<^verbatim>\<open>currentRequestId\<close> of the call is not the counter \<^verbatim>\<open>requestIdRef\<close> of
  its instance, the continuation returns nothing and leaves the whole world (every local
  state, the store, the refs) as it was. A call whose generation is below the counter stays
  so after any interleaving \<open>evs\<close> of further events, so its completion is a no-op
  whenever it comes. A call of \<^verbatim>\<open>execute\<close> that reaches the action takes the generation
  counter + 1 and sets the counter to it: it is the one call that can still commit.
\<close>

theorem earlier_generation_never_commits:
  "(currentRequestId c \<noteq> requestIdRef (hooks w h)
      \<longrightarrow> performAction_settled h c out now w = (w, Returned None))
   \<and> (currentRequestId c < requestIdRef (hooks w h)
      \<longrightarrow> performAction_settled h c out now (run evs w) = (run evs w, Returned None))
   \<and> (cacheHit (sharedStore w) (resolvedTaskKey (hooks w h)) (cacheTime opts) t = None
      \<longrightarrow> (\<exists>w1 c'. execute h opts as t w = (w1, Awaiting c')
             \<and> currentRequestId c' = requestIdRef (hooks w1 h)
             \<and> requestIdRef (hooks w1 h) = requestIdRef (hooks w h) + 1))
   \<and> (currentRequestId c1 \<noteq> requestIdRef (hooks w h)
      \<longrightarrow> performAction_settled_r1 h c1 out now w = (w, Returned None))
   \<and> (currentRequestId c1 < requestIdRef (hooks w h)
      \<longrightarrow> performAction_settled_r1 h c1 out now (run evs w) = (run evs w, Returned None))
   \<and> (resolveTaskKey (taskKey opts1) as = Inr key
        \<and> cacheHit (sharedStore w) key (cacheTime opts1) t = None
      \<longrightarrow> (\<exists>w1 c'. execute_r1 h opts1 as t w = (w1, Awaiting c')
             \<and> currentRequestId c' = requestIdRef (hooks w1 h)
             \<and> requestIdRef (hooks w1 h) = requestIdRef (hooks w h) + 1))"
proof (intro conjI impI)
  assume "currentRequestId c \<noteq> requestIdRef (hooks w h)"
  then show "performAction_settled h c out now w = (w, Returned None)"
    by (simp add: settled_discard)
next
  assume "currentRequestId c < requestIdRef (hooks w h)"
  with requestIdRef_run[of w h evs]
  have "currentRequestId c \<noteq> requestIdRef (hooks (run evs w) h)" by simp
  then show "performAction_settled h c out now (run evs w) = (run evs w, Returned None)"
    by (simp add: settled_discard)
next
  assume "cacheHit (sharedStore w) (resolvedTaskKey (hooks w h)) (cacheTime opts) t = None"
  then show "\<exists>w1 c'. execute h opts as t w = (w1, Awaiting c')
      \<and> currentRequestId c' = requestIdRef (hooks w1 h)
      \<and> requestIdRef (hooks w1 h) = requestIdRef (hooks w h) + 1"
    by (rule execute_allocates)
next
  assume "currentRequestId c1 \<noteq> requestIdRef (hooks w h)"
  then show "performAction_settled_r1 h c1 out now w = (w, Returned None)"
    by (simp add: settled_discard_r1)
next
  assume "currentRequestId c1 < requestIdRef (hooks w h)"
  with requestIdRef_run[of w h evs]
  have "currentRequestId c1 \<noteq> requestIdRef (hooks (run evs w) h)" by simp
  then show "performAction_settled_r1 h c1 out now (run evs w) = (run evs w, Returned None)"
    by (simp add: settled_discard_r1)
next
  assume k: "resolveTaskKey (taskKey opts1) as = Inr key
        \<and> cacheHit (sharedStore w) key (cacheTime opts1) t = None"
  show "\<exists>w1 c'. execute_r1 h opts1 as t w = (w1, Awaiting c')
      \<and> currentRequestId c' = requestIdRef (hooks w1 h)
      \<and> requestIdRef (hooks w1 h) = requestIdRef (hooks w h) + 1"
    by (rule execute_allocates_r1[OF conjunct1[OF k] conjunct2[OF k]])
qed

text \<open>The race of the specification: call A, then call B; B's action fulfils first and is
  committed; when A's action fulfils afterwards nothing changes.\<close>

theorem earlier_generation_never_commits_witness:
  "snd (execute 0 (someOptions 0 0 :: (unit, string) options) () 100 unkeyedWorld)
     = Awaiting firstCall
   \<and> snd (execute 0 (someOptions 0 0 :: (unit, string) options) () 110 startedWorld)
     = Awaiting secondCall
   \<and> data (localState (hooks raceWorld 0)) = Some 2
   \<and> currentRequestId firstCall \<noteq> requestIdRef (hooks raceWorld 0)
   \<and> performAction_settled 0 firstCall (Fulfilled 1) 130 raceWorld = (raceWorld, Returned None)"
proof -
  have stale: "currentRequestId firstCall \<noteq> requestIdRef (hooks raceWorld 0)"
    by (simp add: run_defs)
  have noop: "performAction_settled 0 firstCall (Fulfilled 1) 130 raceWorld
                = (raceWorld, Returned None)"
    using earlier_generation_never_commits[of firstCall raceWorld 0 "Fulfilled 1" 130] stale
    by blast
  have a: "snd (execute 0 (someOptions 0 0 :: (unit, string) options) () 100 unkeyedWorld)
             = Awaiting firstCall"
    by (simp add: run_defs)
  have b: "snd (execute 0 (someOptions 0 0 :: (unit, string) options) () 110 startedWorld)
             = Awaiting secondCall"
    by (simp add: run_defs)
  have d: "data (localState (hooks raceWorld 0)) = Some 2"
    by (simp add: run_defs)
  show ?thesis using a b d stale noop by simp
qed


section \<open>Cancellation\<close>

lemma cancel_simps [simp]:
  "sharedStore (cancel h w) = sharedStore w"
  "nextAbortController (cancel h w) = nextAbortController w"
  "localState (hooks (cancel h w) x) = localState (hooks w x)"
  "requestIdRef (hooks (cancel h w) h) = requestIdRef (hooks w h) + 1"
  "unmountedRef (hooks (cancel h w) x) = unmountedRef (hooks w x)"
  by (simp_all add: cancel_def Let_def)

lemma cancel_r1_simps [simp]:
  "sharedStore (cancel_r1 h w) = sharedStore w"
  "aborted (cancel_r1 h w) = aborted w"
  "localState (hooks (cancel_r1 h w) x) = localState (hooks w x)"
  "requestIdRef (hooks (cancel_r1 h w) h) = requestIdRef (hooks w h) + 1"
  "unmountedRef (hooks (cancel_r1 h w) x) = unmountedRef (hooks w x)"
  by (simp_all add: cancel_r1_def)

lemma execute_Awaiting:
  assumes "execute h opts as t w = (w1, Awaiting c)"
  shows "cacheHit (sharedStore w) (resolvedTaskKey (hooks w h)) (cacheTime opts) t = None"
  using assms by (auto simp: execute_def Let_def split: option.splits)

lemma execute_Awaiting_r1:
  assumes "execute_r1 h opts as t w = (w1, Awaiting c)"
  shows "\<exists>key. resolveTaskKey (taskKey opts) as = Inr key
           \<and> cacheHit (sharedStore w) key (cacheTime opts) t = None"
  using assms by (auto simp: execute_r1_def Let_def split: option.splits sum.splits)

lemma cancel_after_execute:
  assumes ex: "execute h opts as t w = (w1, Awaiting c)"
  shows "performAction_settled h c out now (cancel h w1) = (cancel h w1, Returned None)"
    and "mounted w h \<Longrightarrow> loading (localState (hooks w1 h))"
proof -
  note miss = execute_Awaiting[OF ex]
  from execute_allocates[OF miss, of as] ex
  have gen: "currentRequestId c = requestIdRef (hooks w1 h)" by auto
  show "performAction_settled h c out now (cancel h w1) = (cancel h w1, Returned None)"
    by (rule settled_discard) (simp add: gen)
  show "loading (localState (hooks w1 h))" if "mounted w h"
    using execute_started(2)[OF miss that, of as] ex by simp
qed

lemma cancel_after_execute_r1:
  assumes ex: "execute_r1 h opts as t w = (w1, Awaiting c)"
  shows "performAction_settled_r1 h c out now (cancel_r1 h w1) = (cancel_r1 h w1, Returned None)"
    and "mounted w h \<Longrightarrow> loading (localState (hooks w1 h))"
proof -
  from execute_Awaiting_r1[OF ex] obtain key where
    key: "resolveTaskKey (taskKey opts) as = Inr key"
    and miss: "cacheHit (sharedStore w) key (cacheTime opts) t = None" by blast
  from execute_allocates_r1[OF key miss, of h] ex
  have gen: "currentRequestId c = requestIdRef (hooks w1 h)" by auto
  show "performAction_settled_r1 h c out now (cancel_r1 h w1) = (cancel_r1 h w1, Returned None)"
    by (rule settled_discard_r1) (simp add: gen)
  show "loading (localState (hooks w1 h))" if "mounted w h"
    using execute_started_r1(2)[OF key miss that] ex by simp
qed

text \<open>
  C2, as the claim states it, fails: after \<^verbatim>\<open>execute\<close>, \<^verbatim>\<open>cancel()\<close> and the fulfilment
  of the action with 7, \<^verbatim>\<open>loading\<close> is still true (and \<^verbatim>\<open>data\<close> is absent).
\<close>

theorem cancel_leaves_loading_counterexample:
  "snd (execute 0 (someOptions 0 0 :: (unit, string) options) () 100 unkeyedWorld)
     = Awaiting firstCall
   \<and> loading (localState (hooks cancelledWorld 0))
   \<and> data (localState (hooks cancelledWorld 0)) = None"
  by (simp add: run_defs)

text \<open>
  C2, amended. In both revisions: if \<^verbatim>\<open>execute\<close> has started the action and
  \<^verbatim>\<open>cancel()\<close> is called before the action settles, then when the action settles later
  (fulfilled or rejected) the continuation returns nothing and changes nothing: neither
  the local state nor the store is written, so \<^verbatim>\<open>data\<close> is not set to the result.
  \<^verbatim>\<open>cancel()\<close> itself leaves every local state and the store as they were. So
  \<^verbatim>\<open>loading\<close> keeps the value that \<^verbatim>\<open>execute\<close> committed, which is true for a mounted
  instance.
\<close>

theorem cancel_suppresses_commit:
  "(execute h opts as t w = (w1, Awaiting c) \<longrightarrow>
      performAction_settled h c out now (cancel h w1) = (cancel h w1, Returned None)
      \<and> localState (hooks (cancel h w1) h) = localState (hooks w1 h)
      \<and> sharedStore (cancel h w1) = sharedStore w1
      \<and> (mounted w h \<longrightarrow> loading (localState (hooks (cancel h w1) h))))
   \<and> (execute_r1 h opts1 as t w = (w1, Awaiting c1) \<longrightarrow>
      performAction_settled_r1 h c1 out now (cancel_r1 h w1) = (cancel_r1 h w1, Returned None)
      \<and> localState (hooks (cancel_r1 h w1) h) = localState (hooks w1 h)
      \<and> sharedStore (cancel_r1 h w1) = sharedStore w1
      \<and> (mounted w h \<longrightarrow> loading (localState (hooks (cancel_r1 h w1) h))))"
  by (auto intro: cancel_after_execute cancel_after_execute_r1)

theorem cancel_suppresses_commit_witness:
  "execute 0 (someOptions 0 0 :: (unit, string) options) () 100 unkeyedWorld
     = (startedWorld, Awaiting firstCall)
   \<and> mounted unkeyedWorld 0
   \<and> performAction_settled 0 firstCall (Fulfilled 7) 200 (cancel 0 startedWorld)
       = (cancel 0 startedWorld, Returned None)
   \<and> loading (localState (hooks (cancel 0 startedWorld) 0))"
proof -
  have ex: "execute 0 (someOptions 0 0 :: (unit, string) options) () 100 unkeyedWorld
              = (startedWorld, Awaiting firstCall)"
    by (rule prod_eqI) (simp_all add: run_defs)
  have m: "mounted unkeyedWorld 0"
    by (simp add: run_defs)
  show ?thesis
    using cancel_suppresses_commit
            [of 0 "someOptions 0 0" "()" 100 unkeyedWorld startedWorld firstCall "Fulfilled 7" 200]
          ex m
    by simp
qed

section \<open>Retries\<close>

text \<open>
  C3. In both revisions, for a mounted instance whose \<^verbatim>\<open>data\<close> is absent, with
  \<^verbatim>\<open>maxRetries = 3\<close> and no valid cache entry: \<^verbatim>\<open>execute\<close> calls the action once and
  suspends; when the action rejects four times in a row (errors \<open>e0\<close> .. \<open>e3\<close> at times
  \<open>t0\<close> .. \<open>t3\<close>), with nothing else in between, the call returns nothing, the action
  has been called 4 times in all (3 times after the first), and the local state is
  \<^verbatim>\<open>data\<close> absent, \<^verbatim>\<open>loading = false\<close>, \<^verbatim>\<open>error = e3\<close>, \<^verbatim>\<open>retryCount = 3\<close>,
  \<^verbatim>\<open>lastUpdated = t3\<close>.
\<close>

theorem retry_exhaustion:
  "(mounted w h \<and> maxRetries opts = 3 \<and> data (localState (hooks w h)) = None
      \<and> cacheHit (sharedStore w) (resolvedTaskKey (hooks w h)) (cacheTime opts) t = None
    \<longrightarrow> (\<exists>w1 c w2. execute h opts as t w = (w1, Awaiting c)
          \<and> actionCalls (hooks w1 h) = actionCalls (hooks w h) + 1
          \<and> settleAll h c (rejections [(e0, t0), (e1, t1), (e2, t2), (e3, t3)]) w1
              = (w2, Returned None)
          \<and> localState (hooks w2 h) =
               \<lparr>data = None, loading = False, error = Some e3, retryCount = 3,
                lastUpdated = Some t3\<rparr>
          \<and> actionCalls (hooks w2 h) = actionCalls (hooks w h) + 4))
   \<and> (mounted w h \<and> maxRetries opts1 = 3 \<and> data (localState (hooks w h)) = None
      \<and> resolveTaskKey (taskKey opts1) as = Inr key
      \<and> cacheHit (sharedStore w) key (cacheTime opts1) t = None
    \<longrightarrow> (\<exists>w1 c w2. execute_r1 h opts1 as t w = (w1, Awaiting c)
          \<and> actionCalls (hooks w1 h) = actionCalls (hooks w h) + 1
          \<and> settleAll_r1 h c (rejections [(e0, t0), (e1, t1), (e2, t2), (e3, t3)]) w1
              = (w2, Returned None)
          \<and> localState (hooks w2 h) =
               \<lparr>data = None, loading = False, error = Some e3, retryCount = 3,
                lastUpdated = Some t3\<rparr>
          \<and> actionCalls (hooks w2 h) = actionCalls (hooks w h) + 4))"
proof (intro conjI impI)
  assume a: "mounted w h \<and> maxRetries opts = 3 \<and> data (localState (hooks w h)) = None
      \<and> cacheHit (sharedStore w) (resolvedTaskKey (hooks w h)) (cacheTime opts) t = None"
  then have "mounted w h" "maxRetries opts = 3" "data (localState (hooks w h)) = None"
    "cacheHit (sharedStore w) (resolvedTaskKey (hooks w h)) (cacheTime opts) t = None"
    by simp_all
  then show "\<exists>w1 c w2. execute h opts as t w = (w1, Awaiting c)
          \<and> actionCalls (hooks w1 h) = actionCalls (hooks w h) + 1
          \<and> settleAll h c (rejections [(e0, t0), (e1, t1), (e2, t2), (e3, t3)]) w1
              = (w2, Returned None)
          \<and> localState (hooks w2 h) =
               \<lparr>data = None, loading = False, error = Some e3, retryCount = 3,
                lastUpdated = Some t3\<rparr>
          \<and> actionCalls (hooks w2 h) = actionCalls (hooks w h) + 4"
    by (rule exhaustion_r2)
next
  assume a: "mounted w h \<and> maxRetries opts1 = 3 \<and> data (localState (hooks w h)) = None
      \<and> resolveTaskKey (taskKey opts1) as = Inr key
      \<and> cacheHit (sharedStore w) key (cacheTime opts1) t = None"
  then have "mounted w h" "maxRetries opts1 = 3" "data (localState (hooks w h)) = None"
    "resolveTaskKey (taskKey opts1) as = Inr key"
    "cacheHit (sharedStore w) key (cacheTime opts1) t = None"
    by simp_all
  then show "\<exists>w1 c w2. execute_r1 h opts1 as t w = (w1, Awaiting c)
          \<and> actionCalls (hooks w1 h) = actionCalls (hooks w h) + 1
          \<and> settleAll_r1 h c (rejections [(e0, t0), (e1, t1), (e2, t2), (e3, t3)]) w1
              = (w2, Returned None)
          \<and> localState (hooks w2 h) =
               \<lparr>data = None, loading = False, error = Some e3, retryCount = 3,
                lastUpdated = Some t3\<rparr>
          \<and> actionCalls (hooks w2 h) = actionCalls (hooks w h) + 4"
    by (rule exhaustion_r1)
qed

theorem retry_exhaustion_witness:
  "mounted unkeyedWorld 0
   \<and> maxRetries (someOptions 3 0 :: (unit, string) options) = 3
   \<and> data (localState (hooks unkeyedWorld 0)) = None
   \<and> cacheHit (sharedStore unkeyedWorld) (resolvedTaskKey (hooks unkeyedWorld 0))
        (cacheTime (someOptions 3 0 :: (unit, string) options)) 100 = None
   \<and> (\<exists>w1 c w2. execute 0 (someOptions 3 0 :: (unit, string) options) () 100 unkeyedWorld
                    = (w1, Awaiting c)
          \<and> actionCalls (hooks w1 0) = 1
          \<and> settleAll 0 c
               (rejections [(''a'', 101), (''b'', 102), (''c'', 103), (''d'', 104)]) w1
              = (w2, Returned None)
          \<and> localState (hooks w2 0) =
               \<lparr>data = None, loading = False, error = Some ''d'', retryCount = 3,
                lastUpdated = Some 104\<rparr>
          \<and> actionCalls (hooks w2 0) = 4)"
proof -
  have hyps: "mounted unkeyedWorld 0
     \<and> maxRetries (someOptions 3 0 :: (unit, string) options) = 3
     \<and> data (localState (hooks unkeyedWorld 0)) = None
     \<and> cacheHit (sharedStore unkeyedWorld) (resolvedTaskKey (hooks unkeyedWorld 0))
          (cacheTime (someOptions 3 0 :: (unit, string) options)) 100 = None"
    by (simp add: run_defs)
  have calls: "actionCalls (hooks unkeyedWorld 0) = 0"
    by (simp add: run_defs)
  note inst = retry_exhaustion
            [of unkeyedWorld 0 "someOptions 3 0" 100 "()" "''a''" 101 "''b''" 102 "''c''" 103
                "''d''" 104, THEN conjunct1, THEN mp, OF hyps]
  show ?thesis
    using inst hyps calls by simp
qed


section \<open>What the promise of \<^verbatim>\<open>execute\<close> settles with\<close>

lemma settled_result:
  "(\<exists>x. snd (performAction_settled h c out now w) = Returned x
        \<and> (\<forall>r. x = Some r \<longrightarrow> out = Fulfilled r))
   \<or> (snd (performAction_settled h c out now w) = Awaiting (c\<lparr>retry := retry c + 1\<rparr>)
       \<and> retry c < maxRetries (currentOptions c))"
  by (cases out) (auto simp: performAction_settled_def performAction_def Let_def)

lemma settleAll_result:
  "snd (settleAll h c outs w) \<noteq> Threw e
   \<and> (snd (settleAll h c outs w) = Returned (Some r) \<longrightarrow> Fulfilled r \<in> fst ` set outs)
   \<and> (maxRetries (currentOptions c) - retry c < length outs
        \<longrightarrow> (\<exists>x. snd (settleAll h c outs w) = Returned x))"
proof (induction outs arbitrary: c w)
  case Nil
  show ?case by simp
next
  case (Cons o1 outs)
  obtain out now where o1: "o1 = (out, now)" by (cases o1)
  obtain w' res where step: "performAction_settled h c out now w = (w', res)"
    by (cases "performAction_settled h c out now w")
  from settled_result[of h c out now w] step
  consider (ret) x where "res = Returned x" "\<forall>r. x = Some r \<longrightarrow> out = Fulfilled r"
    | (again) "res = Awaiting (c\<lparr>retry := retry c + 1\<rparr>)" "retry c < maxRetries (currentOptions c)"
    by auto
  then show ?case
  proof cases
    case ret
    then show ?thesis by (auto simp: o1 step)
  next
    case again
    let ?c' = "c\<lparr>retry := retry c + 1\<rparr>"
    have run: "settleAll h c (o1 # outs) w = settleAll h ?c' outs w'"
      by (simp add: o1 step again(1))
    have less: "maxRetries (currentOptions c) - retry c < length (o1 # outs)
                  \<Longrightarrow> maxRetries (currentOptions ?c') - retry ?c' < length outs"
      using again(2) by simp
    show ?thesis
      unfolding run using Cons.IH[of ?c' w'] less by auto
  qed
qed

lemma settled_result_r1:
  "(\<exists>x. snd (performAction_settled_r1 h c out now w) = Returned x
        \<and> (\<forall>r. x = Some r \<longrightarrow> out = Fulfilled r))
   \<or> (snd (performAction_settled_r1 h c out now w) = Awaiting (c\<lparr>retry := retry c + 1\<rparr>)
       \<and> retry c < maxRetries (currentOptions c))"
  by (cases out) (auto simp: performAction_settled_r1_def performAction_r1_def Let_def)

lemma settleAll_result_r1:
  "snd (settleAll_r1 h c outs w) \<noteq> Threw e
   \<and> (snd (settleAll_r1 h c outs w) = Returned (Some r) \<longrightarrow> Fulfilled r \<in> fst ` set outs)
   \<and> (maxRetries (currentOptions c) - retry c < length outs
        \<longrightarrow> (\<exists>x. snd (settleAll_r1 h c outs w) = Returned x))"
proof (induction outs arbitrary: c w)
  case Nil
  show ?case by simp
next
  case (Cons o1 outs)
  obtain out now where o1: "o1 = (out, now)" by (cases o1)
  obtain w' res where step: "performAction_settled_r1 h c out now w = (w', res)"
    by (cases "performAction_settled_r1 h c out now w")
  from settled_result_r1[of h c out now w] step
  consider (ret) x where "res = Returned x" "\<forall>r. x = Some r \<longrightarrow> out = Fulfilled r"
    | (again) "res = Awaiting (c\<lparr>retry := retry c + 1\<rparr>)" "retry c < maxRetries (currentOptions c)"
    by auto
  then show ?case
  proof cases
    case ret
    then show ?thesis by (auto simp: o1 step)
  next
    case again
    let ?c' = "c\<lparr>retry := retry c + 1\<rparr>"
    have run: "settleAll_r1 h c (o1 # outs) w = settleAll_r1 h ?c' outs w'"
      by (simp add: o1 step again(1))
    have less: "maxRetries (currentOptions c) - retry c < length (o1 # outs)
                  \<Longrightarrow> maxRetries (currentOptions ?c') - retry ?c' < length outs"
      using again(2) by simp
    show ?thesis
      unfolding run using Cons.IH[of ?c' w'] less by auto
  qed
qed

lemma execute_r1_key_throws:
  "resolveTaskKey (taskKey opts) as = Inl e \<Longrightarrow> snd (execute_r1 h opts as t w) = Threw e"
  by (simp add: execute_r1_def Let_def)

lemma settled_final_error:
  assumes "live w h c" "\<not> retry c < maxRetries (currentOptions c)"
  shows "snd (performAction_settled h c (Rejected e) now w) = Returned None"
    and "error (localState (hooks (fst (performAction_settled h c (Rejected e) now w)) h)) = Some e"
  using settled_final[OF assms, of e now] localState_final[OF assms, of e now] by simp_all

lemma settled_final_error_r1:
  assumes "live_r1 w h c" "\<not> retry c < maxRetries (currentOptions c)"
  shows "snd (performAction_settled_r1 h c (Rejected e) now w) = Returned None"
    and "error (localState (hooks (fst (performAction_settled_r1 h c (Rejected e) now w)) h))
           = Some e"
  using settled_final_r1[OF assms, of e now] localState_final_r1[OF assms, of e now]
  by simp_all

lemma chain_fulfilled:
  assumes l: "live w h c" and bound: "retry c + length es \<le> maxRetries (currentOptions c)"
  shows "\<exists>w2. settleAll h c (rejections es @ [(Fulfilled r, t)]) w = (w2, Returned (Some r))
      \<and> localState (hooks w2 h) =
           \<lparr>data = Some r, loading = False, error = None, retryCount = 0,
            lastUpdated = Some t\<rparr>"
proof -
  let ?c' = "c\<lparr>retry := retry c + length es\<rparr>"
  from settleAll_rejections[OF l bound] obtain w' where
    run: "settleAll h c (rejections es) w = (w', Awaiting ?c')"
    and ab: "aborted w' = aborted w"
    and hk: "hooks w' h = (hooks w h)
           \<lparr>localState := (localState (hooks w h))
              \<lparr>retryCount := (if es = [] then retryCount (localState (hooks w h))
                               else retry c + length es)\<rparr>,
            actionCalls := actionCalls (hooks w h) + length es\<rparr>"
    by auto
  have l': "live w' h ?c'"
    using l by (simp add: live_def mounted_def hk ab)
  obtain w2 where last: "performAction_settled h ?c' (Fulfilled r) t w' = (w2, Returned (Some r))"
    using settled_success[OF l'] by blast
  have w2: "fst (performAction_settled h ?c' (Fulfilled r) t w') = w2"
    by (simp add: last)
  have all: "settleAll h c (rejections es @ [(Fulfilled r, t)]) w = (w2, Returned (Some r))"
    unfolding settleAll_append run by (simp add: last)
  have ls: "localState (hooks w2 h) =
           \<lparr>data = Some r, loading = False, error = None, retryCount = 0,
            lastUpdated = Some t\<rparr>"
    using localState_success[OF l', of r t] unfolding w2 .
  show ?thesis using all ls by blast
qed

lemma chain_exhausted:
  assumes l: "live w h c" and len: "retry c + length es = maxRetries (currentOptions c)"
  shows "\<exists>w2. settleAll h c (rejections es @ [(Rejected e, t)]) w = (w2, Returned None)
      \<and> error (localState (hooks w2 h)) = Some e
      \<and> loading (localState (hooks w2 h)) = False
      \<and> retryCount (localState (hooks w2 h)) = maxRetries (currentOptions c)"
proof -
  let ?c' = "c\<lparr>retry := retry c + length es\<rparr>"
  have bound: "retry c + length es \<le> maxRetries (currentOptions c)" using len by simp
  from settleAll_rejections[OF l bound] obtain w' where
    run: "settleAll h c (rejections es) w = (w', Awaiting ?c')"
    and ab: "aborted w' = aborted w"
    and hk: "hooks w' h = (hooks w h)
           \<lparr>localState := (localState (hooks w h))
              \<lparr>retryCount := (if es = [] then retryCount (localState (hooks w h))
                               else retry c + length es)\<rparr>,
            actionCalls := actionCalls (hooks w h) + length es\<rparr>"
    by auto
  have l': "live w' h ?c'"
    using l by (simp add: live_def mounted_def hk ab)
  have fin: "\<not> retry ?c' < maxRetries (currentOptions ?c')"
    using len by simp
  obtain w2 where last: "performAction_settled h ?c' (Rejected e) t w' = (w2, Returned None)"
    using settled_final[OF l' fin] by blast
  have w2: "fst (performAction_settled h ?c' (Rejected e) t w') = w2"
    by (simp add: last)
  have all: "settleAll h c (rejections es @ [(Rejected e, t)]) w = (w2, Returned None)"
    unfolding settleAll_append run by (simp add: last)
  have ls: "error (localState (hooks w2 h)) = Some e
      \<and> loading (localState (hooks w2 h)) = False
      \<and> retryCount (localState (hooks w2 h)) = maxRetries (currentOptions c)"
    using localState_final[OF l' fin, of e t] len unfolding w2 by simp
  show ?thesis using all ls by blast
qed

lemma chain_discarded:
  "unmountedRef (hooks w h) \<or> currentRequestId c \<noteq> requestIdRef (hooks w h)
     \<or> abortController c \<in> aborted w
   \<Longrightarrow> settleAll h c ((out, now) # rest) w = (w, Returned None)"
  by (simp add: settled_discard)

lemma chain_fulfilled_r1:
  assumes l: "live_r1 w h c" and bound: "retry c + length es \<le> maxRetries (currentOptions c)"
  shows "\<exists>w2. settleAll_r1 h c (rejections es @ [(Fulfilled r, t)]) w = (w2, Returned (Some r))
      \<and> localState (hooks w2 h) =
           \<lparr>data = Some r, loading = False, error = None, retryCount = 0,
            lastUpdated = Some t\<rparr>"
proof -
  let ?c' = "c\<lparr>retry := retry c + length es\<rparr>"
  from settleAll_rejections_r1[OF l bound] obtain w' where
    run: "settleAll_r1 h c (rejections es) w = (w', Awaiting ?c')"
    and hk: "hooks w' h = (hooks w h)
           \<lparr>localState := (localState (hooks w h))
              \<lparr>retryCount := (if es = [] then retryCount (localState (hooks w h))
                               else retry c + length es)\<rparr>,
            actionCalls := actionCalls (hooks w h) + length es\<rparr>"
    by auto
  have l': "live_r1 w' h ?c'"
    using l by (simp add: live_r1_def mounted_def hk)
  obtain w2 where last: "performAction_settled_r1 h ?c' (Fulfilled r) t w' = (w2, Returned (Some r))"
    using settled_success_r1[OF l'] by blast
  have w2: "fst (performAction_settled_r1 h ?c' (Fulfilled r) t w') = w2"
    by (simp add: last)
  have all: "settleAll_r1 h c (rejections es @ [(Fulfilled r, t)]) w = (w2, Returned (Some r))"
    unfolding settleAll_append_r1 run by (simp add: last)
  have ls: "localState (hooks w2 h) =
           \<lparr>data = Some r, loading = False, error = None, retryCount = 0,
            lastUpdated = Some t\<rparr>"
    using localState_success_r1[OF l', of r t] unfolding w2 .
  show ?thesis using all ls by blast
qed

lemma chain_exhausted_r1:
  assumes l: "live_r1 w h c" and len: "retry c + length es = maxRetries (currentOptions c)"
  shows "\<exists>w2. settleAll_r1 h c (rejections es @ [(Rejected e, t)]) w = (w2, Returned None)
      \<and> error (localState (hooks w2 h)) = Some e
      \<and> loading (localState (hooks w2 h)) = False
      \<and> retryCount (localState (hooks w2 h)) = maxRetries (currentOptions c)"
proof -
  let ?c' = "c\<lparr>retry := retry c + length es\<rparr>"
  have bound: "retry c + length es \<le> maxRetries (currentOptions c)" using len by simp
  from settleAll_rejections_r1[OF l bound] obtain w' where
    run: "settleAll_r1 h c (rejections es) w = (w', Awaiting ?c')"
    and hk: "hooks w' h = (hooks w h)
           \<lparr>localState := (localState (hooks w h))
              \<lparr>retryCount := (if es = [] then retryCount (localState (hooks w h))
                               else retry c + length es)\<rparr>,
            actionCalls := actionCalls (hooks w h) + length es\<rparr>"
    by auto
  have l': "live_r1 w' h ?c'"
    using l by (simp add: live_r1_def mounted_def hk)
  have fin: "\<not> retry ?c' < maxRetries (currentOptions ?c')"
    using len by simp
  obtain w2 where last: "performAction_settled_r1 h ?c' (Rejected e) t w' = (w2, Returned None)"
    using settled_final_r1[OF l' fin] by blast
  have w2: "fst (performAction_settled_r1 h ?c' (Rejected e) t w') = w2"
    by (simp add: last)
  have all: "settleAll_r1 h c (rejections es @ [(Rejected e, t)]) w = (w2, Returned None)"
    unfolding settleAll_append_r1 run by (simp add: last)
  have ls: "error (localState (hooks w2 h)) = Some e
      \<and> loading (localState (hooks w2 h)) = False
      \<and> retryCount (localState (hooks w2 h)) = maxRetries (currentOptions c)"
    using localState_final_r1[OF l' fin, of e t] len unfolding w2 by simp
  show ?thesis using all ls by blast
qed

lemma chain_discarded_r1:
  "unmountedRef (hooks w h) \<or> currentRequestId c \<noteq> requestIdRef (hooks w h)
   \<Longrightarrow> settleAll_r1 h c ((out, now) # rest) w = (w, Returned None)"
  by (simp add: settled_discard_r1)

text \<open>
  C5. In both revisions, from the first \<^verbatim>\<open>await\<close> on the promise of \<^verbatim>\<open>execute\<close> never
  rejects: whatever the action settles with and whatever the state of the world, the
  continuation of \<^verbatim>\<open>performAction\<close> either returns or retries, it never throws
  (\<open>Threw\<close>), and neither does any chain of retries. Once the action has settled more
  often than there are retries left, the call has returned. It returns a value only when a
  settlement was a fulfilment with that value, and that is what a live call returns on
  fulfilment; a discarded settlement (unmounted, superseded or aborted) returns nothing;
  a live call whose retries are exhausted returns nothing and puts the error into the
  \<^verbatim>\<open>error\<close> field of the local state. For the whole chain of a live call that nothing
  interrupts: when the action rejects some times within the retries allowed and then
  fulfils with \<open>r\<close>, the promise resolves with \<open>r\<close> and \<open>r\<close> is the \<^verbatim>\<open>data\<close>; when it
  rejects once more than there are retries left, the promise resolves with nothing and the
  last error is the \<^verbatim>\<open>error\<close> field, with \<^verbatim>\<open>loading\<close> false and \<^verbatim>\<open>retryCount\<close> equal
  to \<^verbatim>\<open>maxRetries\<close>; when the call is unmounted, superseded or aborted at its first
  settlement, the promise resolves with nothing and the world is unchanged.
\<close>

theorem execute_promise_never_rejects:
  "snd (performAction_settled h c out now w) \<noteq> Threw e
   \<and> snd (settleAll h c outs w) \<noteq> Threw e
   \<and> (maxRetries (currentOptions c) - retry c < length outs
        \<longrightarrow> (\<exists>x. snd (settleAll h c outs w) = Returned x))
   \<and> (snd (settleAll h c outs w) = Returned (Some r) \<longrightarrow> Fulfilled r \<in> fst ` set outs)
   \<and> (live w h c \<longrightarrow> snd (performAction_settled h c (Fulfilled r) now w) = Returned (Some r))
   \<and> (unmountedRef (hooks w h) \<or> currentRequestId c \<noteq> requestIdRef (hooks w h)
         \<or> abortController c \<in> aborted w
        \<longrightarrow> performAction_settled h c out now w = (w, Returned None))
   \<and> (live w h c \<and> \<not> retry c < maxRetries (currentOptions c)
        \<longrightarrow> snd (performAction_settled h c (Rejected e) now w) = Returned None
          \<and> error (localState (hooks (fst (performAction_settled h c (Rejected e) now w)) h))
              = Some e)
   \<and> snd (performAction_settled_r1 h c1 out now w) \<noteq> Threw e
   \<and> snd (settleAll_r1 h c1 outs w) \<noteq> Threw e
   \<and> (maxRetries (currentOptions c1) - retry c1 < length outs
        \<longrightarrow> (\<exists>x. snd (settleAll_r1 h c1 outs w) = Returned x))
   \<and> (snd (settleAll_r1 h c1 outs w) = Returned (Some r) \<longrightarrow> Fulfilled r \<in> fst ` set outs)
   \<and> (live_r1 w h c1
        \<longrightarrow> snd (performAction_settled_r1 h c1 (Fulfilled r) now w) = Returned (Some r))
   \<and> (unmountedRef (hooks w h) \<or> currentRequestId c1 \<noteq> requestIdRef (hooks w h)
        \<longrightarrow> performAction_settled_r1 h c1 out now w = (w, Returned None))
   \<and> (live_r1 w h c1 \<and> \<not> retry c1 < maxRetries (currentOptions c1)
        \<longrightarrow> snd (performAction_settled_r1 h c1 (Rejected e) now w) = Returned None
          \<and> error (localState (hooks (fst (performAction_settled_r1 h c1 (Rejected e) now w)) h))
              = Some e)
   \<and> (live w h c \<and> retry c + length es \<le> maxRetries (currentOptions c)
        \<longrightarrow> (\<exists>w2. settleAll h c (rejections es @ [(Fulfilled r, t)]) w = (w2, Returned (Some r))
              \<and> localState (hooks w2 h) =
                   \<lparr>data = Some r, loading = False, error = None, retryCount = 0,
                    lastUpdated = Some t\<rparr>))
   \<and> (live w h c \<and> retry c + length es = maxRetries (currentOptions c)
        \<longrightarrow> (\<exists>w2. settleAll h c (rejections es @ [(Rejected e, t)]) w = (w2, Returned None)
              \<and> error (localState (hooks w2 h)) = Some e
              \<and> loading (localState (hooks w2 h)) = False
              \<and> retryCount (localState (hooks w2 h)) = maxRetries (currentOptions c)))
   \<and> (unmountedRef (hooks w h) \<or> currentRequestId c \<noteq> requestIdRef (hooks w h)
         \<or> abortController c \<in> aborted w
        \<longrightarrow> settleAll h c ((out, now) # rest) w = (w, Returned None))
   \<and> (live_r1 w h c1 \<and> retry c1 + length es \<le> maxRetries (currentOptions c1)
        \<longrightarrow> (\<exists>w2. settleAll_r1 h c1 (rejections es @ [(Fulfilled r, t)]) w = (w2, Returned (Some r))
              \<and> localState (hooks w2 h) =
                   \<lparr>data = Some r, loading = False, error = None, retryCount = 0,
                    lastUpdated = Some t\<rparr>))
   \<and> (live_r1 w h c1 \<and> retry c1 + length es = maxRetries (currentOptions c1)
        \<longrightarrow> (\<exists>w2. settleAll_r1 h c1 (rejections es @ [(Rejected e, t)]) w = (w2, Returned None)
              \<and> error (localState (hooks w2 h)) = Some e
              \<and> loading (localState (hooks w2 h)) = False
              \<and> retryCount (localState (hooks w2 h)) = maxRetries (currentOptions c1)))
   \<and> (unmountedRef (hooks w h) \<or> currentRequestId c1 \<noteq> requestIdRef (hooks w h)
        \<longrightarrow> settleAll_r1 h c1 ((out, now) # rest) w = (w, Returned None))"
proof -
  have old: "snd (performAction_settled h c out now w) \<noteq> Threw e
   \<and> snd (settleAll h c outs w) \<noteq> Threw e
   \<and> (maxRetries (currentOptions c) - retry c < length outs
        \<longrightarrow> (\<exists>x. snd (settleAll h c outs w) = Returned x))
   \<and> (snd (settleAll h c outs w) = Returned (Some r) \<longrightarrow> Fulfilled r \<in> fst ` set outs)
   \<and> (live w h c \<longrightarrow> snd (performAction_settled h c (Fulfilled r) now w) = Returned (Some r))
   \<and> (unmountedRef (hooks w h) \<or> currentRequestId c \<noteq> requestIdRef (hooks w h)
         \<or> abortController c \<in> aborted w
        \<longrightarrow> performAction_settled h c out now w = (w, Returned None))
   \<and> (live w h c \<and> \<not> retry c < maxRetries (currentOptions c)
        \<longrightarrow> snd (performAction_settled h c (Rejected e) now w) = Returned None
          \<and> error (localState (hooks (fst (performAction_settled h c (Rejected e) now w)) h))
              = Some e)
   \<and> snd (performAction_settled_r1 h c1 out now w) \<noteq> Threw e
   \<and> snd (settleAll_r1 h c1 outs w) \<noteq> Threw e
   \<and> (maxRetries (currentOptions c1) - retry c1 < length outs
        \<longrightarrow> (\<exists>x. snd (settleAll_r1 h c1 outs w) = Returned x))
   \<and> (snd (settleAll_r1 h c1 outs w) = Returned (Some r) \<longrightarrow> Fulfilled r \<in> fst ` set outs)
   \<and> (live_r1 w h c1
        \<longrightarrow> snd (performAction_settled_r1 h c1 (Fulfilled r) now w) = Returned (Some r))
   \<and> (unmountedRef (hooks w h) \<or> currentRequestId c1 \<noteq> requestIdRef (hooks w h)
        \<longrightarrow> performAction_settled_r1 h c1 out now w = (w, Returned None))
   \<and> (live_r1 w h c1 \<and> \<not> retry c1 < maxRetries (currentOptions c1)
        \<longrightarrow> snd (performAction_settled_r1 h c1 (Rejected e) now w) = Returned None
          \<and> error (localState (hooks (fst (performAction_settled_r1 h c1 (Rejected e) now w)) h))
              = Some e)"
  proof -
    have one: "snd (performAction_settled h c out now w) \<noteq> Threw e"
      using settled_result[of h c out now w] by auto
    have one_r1: "snd (performAction_settled_r1 h c1 out now w) \<noteq> Threw e"
      using settled_result_r1[of h c1 out now w] by auto
    note all = settleAll_result[of h c outs w e r]
    note all_r1 = settleAll_result_r1[of h c1 outs w e r]
    have ok: "live w h c \<longrightarrow> snd (performAction_settled h c (Fulfilled r) now w) = Returned (Some r)"
      by (simp add: settled_success)
    have ok_r1: "live_r1 w h c1
        \<longrightarrow> snd (performAction_settled_r1 h c1 (Fulfilled r) now w) = Returned (Some r)"
      by (simp add: settled_success_r1)
    show ?thesis
      using one one_r1 all all_r1 ok ok_r1
      by (auto simp: settled_discard settled_discard_r1 settled_final_error
            settled_final_error_r1)
  qed
  have cf: "(live w h c \<and> retry c + length es \<le> maxRetries (currentOptions c)
        \<longrightarrow> (\<exists>w2. settleAll h c (rejections es @ [(Fulfilled r, t)]) w = (w2, Returned (Some r))
              \<and> localState (hooks w2 h) =
                   \<lparr>data = Some r, loading = False, error = None, retryCount = 0,
                    lastUpdated = Some t\<rparr>))"
    by (intro impI; elim conjE; rule chain_fulfilled; assumption)
  have ce: "(live w h c \<and> retry c + length es = maxRetries (currentOptions c)
        \<longrightarrow> (\<exists>w2. settleAll h c (rejections es @ [(Rejected e, t)]) w = (w2, Returned None)
              \<and> error (localState (hooks w2 h)) = Some e
              \<and> loading (localState (hooks w2 h)) = False
              \<and> retryCount (localState (hooks w2 h)) = maxRetries (currentOptions c)))"
    by (intro impI; elim conjE; rule chain_exhausted; assumption)
  have cd: "(unmountedRef (hooks w h) \<or> currentRequestId c \<noteq> requestIdRef (hooks w h)
         \<or> abortController c \<in> aborted w
        \<longrightarrow> settleAll h c ((out, now) # rest) w = (w, Returned None))"
    by (intro impI; rule chain_discarded; assumption)
  have cf1: "(live_r1 w h c1 \<and> retry c1 + length es \<le> maxRetries (currentOptions c1)
        \<longrightarrow> (\<exists>w2. settleAll_r1 h c1 (rejections es @ [(Fulfilled r, t)]) w = (w2, Returned (Some r))
              \<and> localState (hooks w2 h) =
                   \<lparr>data = Some r, loading = False, error = None, retryCount = 0,
                    lastUpdated = Some t\<rparr>))"
    by (intro impI; elim conjE; rule chain_fulfilled_r1; assumption)
  have ce1: "(live_r1 w h c1 \<and> retry c1 + length es = maxRetries (currentOptions c1)
        \<longrightarrow> (\<exists>w2. settleAll_r1 h c1 (rejections es @ [(Rejected e, t)]) w = (w2, Returned None)
              \<and> error (localState (hooks w2 h)) = Some e
              \<and> loading (localState (hooks w2 h)) = False
              \<and> retryCount (localState (hooks w2 h)) = maxRetries (currentOptions c1)))"
    by (intro impI; elim conjE; rule chain_exhausted_r1; assumption)
  have cd1: "(unmountedRef (hooks w h) \<or> currentRequestId c1 \<noteq> requestIdRef (hooks w h)
        \<longrightarrow> settleAll_r1 h c1 ((out, now) # rest) w = (w, Returned None))"
    by (intro impI; rule chain_discarded_r1; assumption)
  show ?thesis
    using old cf ce cd cf1 ce1 cd1 by blast
qed

theorem execute_promise_never_rejects_witness:
  "maxRetries (currentOptions firstCall) - retry firstCall < length [(Rejected ''x'', 150 :: int)]
   \<and> live startedWorld 0 firstCall
   \<and> \<not> retry firstCall < maxRetries (currentOptions firstCall)
   \<and> (\<exists>x. snd (settleAll 0 firstCall [(Rejected ''x'', 150)] startedWorld) = Returned x)
   \<and> snd (performAction_settled 0 firstCall (Rejected ''x'') 150 startedWorld) = Returned None
   \<and> error (localState (hooks (fst (performAction_settled 0 firstCall (Rejected ''x'') 150
        startedWorld)) 0)) = Some ''x''
   \<and> live retryStartedWorld 0 retryingCall
   \<and> retry retryingCall + length [(''x'', 150 :: int)] \<le> maxRetries (currentOptions retryingCall)
   \<and> retry retryingCall + length [(''x'', 150 :: int)] = maxRetries (currentOptions retryingCall)
   \<and> (\<exists>w2. settleAll 0 retryingCall (rejections [(''x'', 150)] @ [(Fulfilled 9, 160)])
               retryStartedWorld = (w2, Returned (Some 9))
         \<and> localState (hooks w2 0) =
              \<lparr>data = Some 9, loading = False, error = None, retryCount = 0,
               lastUpdated = Some 160\<rparr>)
   \<and> (\<exists>w2. settleAll 0 retryingCall (rejections [(''x'', 150)] @ [(Rejected ''y'', 160)])
               retryStartedWorld = (w2, Returned None)
         \<and> error (localState (hooks w2 0)) = Some ''y''
         \<and> loading (localState (hooks w2 0)) = False
         \<and> retryCount (localState (hooks w2 0)) = 1)"
proof -
  have hyps: "maxRetries (currentOptions firstCall) - retry firstCall
                < length [(Rejected ''x'', 150 :: int)]"
    "live startedWorld 0 firstCall"
    "\<not> retry firstCall < maxRetries (currentOptions firstCall)"
    by (simp_all add: live_def run_defs)
  have hyps2: "live retryStartedWorld 0 retryingCall"
    "retry retryingCall + length [(''x'', 150 :: int)] \<le> maxRetries (currentOptions retryingCall)"
    "retry retryingCall + length [(''x'', 150 :: int)] = maxRetries (currentOptions retryingCall)"
    by (simp_all add: live_def run_defs retryingCall_def retryStartedWorld_def)
  have mr: "maxRetries (currentOptions retryingCall) = 1"
    by (simp add: retryingCall_def someOptions_def)
  note inst = execute_promise_never_rejects
            [of 0 firstCall "Rejected ''x''" 150 startedWorld "''x''" "[(Rejected ''x'', 150)]"
                0 "closure_r1.truncate firstCall" "[]" 0 "[]"]
  note returns = inst[THEN conjunct2, THEN conjunct2, THEN conjunct1, THEN mp, OF hyps(1)]
  note failure = inst[THEN conjunct2, THEN conjunct2, THEN conjunct2, THEN conjunct2, THEN conjunct2, THEN conjunct2, THEN conjunct1, THEN mp, OF conjI[OF hyps(2) hyps(3)]]
  note inst2 = execute_promise_never_rejects
            [of 0 retryingCall "Rejected ''y''" 160 retryStartedWorld "''y''" "[]"
                9 "closure_r1.truncate retryingCall" "[(''x'', 150)]" 160 "[]"]
  note fulfils = inst2[THEN conjunct2, THEN conjunct2, THEN conjunct2, THEN conjunct2, THEN conjunct2, THEN conjunct2, THEN conjunct2, THEN conjunct2, THEN conjunct2, THEN conjunct2, THEN conjunct2, THEN conjunct2, THEN conjunct2, THEN conjunct2, THEN conjunct1, THEN mp, OF conjI[OF hyps2(1) hyps2(2)]]
  note exhausts = inst2[THEN conjunct2, THEN conjunct2, THEN conjunct2, THEN conjunct2, THEN conjunct2, THEN conjunct2, THEN conjunct2, THEN conjunct2, THEN conjunct2, THEN conjunct2, THEN conjunct2, THEN conjunct2, THEN conjunct2, THEN conjunct2, THEN conjunct2, THEN conjunct1, THEN mp, OF conjI[OF hyps2(1) hyps2(3)]]
  note exhausts' = exhausts[unfolded mr]
  show ?thesis
    using hyps hyps2 returns failure fulfils exhausts' by blast
qed


section \<open>Data and error after a commit\<close>

lemma globalStore_subscribe [simp]:
  "globalStore (subscribe s k l) = globalStore s"
  "globalStore (unsubscribe s k l) = globalStore s"
  by (simp_all add: subscribe_def unsubscribe_def Let_def split: option.splits)

lemma keyedWorld_fields:
  "subscribersOf (sharedStore keyedWorld) k = (if k = ''K'' then [0] else [])"
  "globalStore (sharedStore keyedWorld) = Map.empty"
  "hooks keyedWorld = (\<lambda>h. initialHook (Some ''K''))"
  "aborted keyedWorld = {}"
  "nextAbortController keyedWorld = 0"
  by (simp_all add: keyedWorld_def subscribeEffect_def ifKey_def initialWorld_def
        initialHook_def emptyStore_def getState_def subscribersOf_subscribe
        subscribersOf_emptyStore [unfolded emptyStore_def])

lemma store_after_commit:
  assumes "taskKeyOf c = Some k" "k \<noteq> []"
  shows "live w h c \<Longrightarrow>
           getState (sharedStore (fst (performAction_settled h c (Fulfilled r) now w))) k
             = Some (successEntry r now (currentRequestId c))"
    and "live w h c \<Longrightarrow> \<not> retry c < maxRetries (currentOptions c) \<Longrightarrow>
           getState (sharedStore (fst (performAction_settled h c (Rejected e) now w))) k
             = Some (errorEntry e (retry c) now (currentRequestId c))"
  using assms by (simp_all add: settled_success settled_final ifKey_simps getState_def)

lemma store_after_commit_r1:
  assumes "taskKeyOf c = Some k" "k \<noteq> []"
  shows "live_r1 w h c \<Longrightarrow>
           getState (sharedStore (fst (performAction_settled_r1 h c (Fulfilled r) now w))) k
             = Some (successEntry r now (currentRequestId c))"
    and "live_r1 w h c \<Longrightarrow> \<not> retry c < maxRetries (currentOptions c) \<Longrightarrow>
           getState (sharedStore (fst (performAction_settled_r1 h c (Rejected e) now w))) k
             = Some (errorEntry e (retry c) now (currentRequestId c))"
  using assms by (simp_all add: settled_success_r1 settled_final_r1 ifKey_simps getState_def)

text \<open>
  C6, as the claim states it, fails: a fulfilment (1, at 120) followed by a second call
  whose action rejects (at 140) leaves the instance with \<^verbatim>\<open>data\<close> and \<^verbatim>\<open>error\<close> both
  present and \<^verbatim>\<open>loading\<close> false.
\<close>

theorem data_and_error_counterexample:
  "snd (execute 0 (someOptions 0 0 :: (unit, string) options) () 130 succeededWorld)
     = Awaiting secondCall
   \<and> data (localState (hooks failedWorld 0)) = Some 1
   \<and> error (localState (hooks failedWorld 0)) = Some ''boom''
   \<and> loading (localState (hooks failedWorld 0)) = False"
  by (simp add: run_defs succeededWorld_def failedWorld_def)

text \<open>
  C6, amended. In both revisions, after the commit of a live call: a fulfilment sets
  \<^verbatim>\<open>data\<close> to the result and clears \<^verbatim>\<open>error\<close>; a terminal failure sets \<^verbatim>\<open>error\<close>
  (with \<^verbatim>\<open>loading\<close> false) and does not set \<^verbatim>\<open>data\<close>: in the local state of an
  instance that the store does not notify for the key of the call, \<^verbatim>\<open>data\<close> keeps the
  value it had before (last known good). So after a success at most one of the two is
  present, and after a failure both are present when \<^verbatim>\<open>data\<close> was present before.
\<close>

theorem commit_data_and_error:
  "(live w h c \<longrightarrow>
      localState (hooks (fst (performAction_settled h c (Fulfilled r) now w)) h) =
        \<lparr>data = Some r, loading = False, error = None, retryCount = 0,
         lastUpdated = Some now\<rparr>)
   \<and> (live w h c \<and> \<not> retry c < maxRetries (currentOptions c) \<longrightarrow>
      (let s' = localState (hooks (fst (performAction_settled h c (Rejected e) now w)) h)
       in error s' = Some e \<and> loading s' = False \<and> retryCount s' = retry c
          \<and> lastUpdated s' = Some now
          \<and> (\<not> subscribed w h (taskKeyOf c) \<longrightarrow> data s' = data (localState (hooks w h)))))
   \<and> (live_r1 w h c1 \<longrightarrow>
      localState (hooks (fst (performAction_settled_r1 h c1 (Fulfilled r) now w)) h) =
        \<lparr>data = Some r, loading = False, error = None, retryCount = 0,
         lastUpdated = Some now\<rparr>)
   \<and> (live_r1 w h c1 \<and> \<not> retry c1 < maxRetries (currentOptions c1) \<longrightarrow>
      (let s' = localState (hooks (fst (performAction_settled_r1 h c1 (Rejected e) now w)) h)
       in error s' = Some e \<and> loading s' = False \<and> retryCount s' = retry c1
          \<and> lastUpdated s' = Some now
          \<and> (\<not> subscribed w h (taskKeyOf c1) \<longrightarrow> data s' = data (localState (hooks w h)))))"
  by (simp add: Let_def localState_success localState_final localState_success_r1
        localState_final_r1)

text \<open>The second call of the counterexample: the instance holds the data 1 of the first
  call, is not subscribed to any key, and keeps the data when the second call fails.\<close>

theorem commit_data_and_error_witness:
  "live startedWorld 0 firstCall
   \<and> localState (hooks (fst (performAction_settled 0 firstCall (Fulfilled 1) 120 startedWorld)) 0)
       = \<lparr>data = Some 1, loading = False, error = None, retryCount = 0, lastUpdated = Some 120\<rparr>
   \<and> live (fst (execute 0 (someOptions 0 0 :: (unit, string) options) () 130 succeededWorld)) 0
        secondCall
   \<and> \<not> retry secondCall < maxRetries (currentOptions secondCall)
   \<and> \<not> subscribed (fst (execute 0 (someOptions 0 0 :: (unit, string) options) () 130
          succeededWorld)) 0 (taskKeyOf secondCall)
   \<and> data (localState (hooks (fst (execute 0 (someOptions 0 0 :: (unit, string) options) () 130
          succeededWorld)) 0)) = Some 1
   \<and> error (localState (hooks failedWorld 0)) = Some ''boom''
   \<and> loading (localState (hooks failedWorld 0)) = False
   \<and> data (localState (hooks failedWorld 0)) = Some 1"
proof -
  let ?w = "fst (execute 0 (someOptions 0 0 :: (unit, string) options) () 130 succeededWorld)"
  have l1: "live startedWorld 0 firstCall"
    by (simp add: live_def run_defs)
  have hyps: "live ?w 0 secondCall"
    "\<not> retry secondCall < maxRetries (currentOptions secondCall)"
    by (simp_all add: live_def run_defs succeededWorld_def)
  have sub: "\<not> subscribed ?w 0 (taskKeyOf secondCall)"
    by (simp add: subscribed_def secondCall_def)
  have d: "data (localState (hooks ?w 0)) = Some 1"
    by (simp add: run_defs succeededWorld_def)
  note success = commit_data_and_error
                [of startedWorld 0 firstCall 1 120 "''boom''" "closure_r1.truncate firstCall",
                 THEN conjunct1, THEN mp, OF l1]
  note failure = commit_data_and_error
                [of ?w 0 secondCall 1 140 "''boom''" "closure_r1.truncate secondCall",
                 THEN conjunct2, THEN conjunct1, THEN mp, OF conjI[OF hyps(1) hyps(2)]]
  show ?thesis
    using l1 hyps success failure sub d by (simp add: Let_def failedWorld_def)
qed


section \<open>The cache\<close>

lemma cacheHit_iff:
  "cacheHit s key ct t = Some cs \<longleftrightarrow>
     (\<exists>k u. key = Some k \<and> k \<noteq> [] \<and> 0 < ct \<and> getState s k = Some cs
        \<and> lastUpdated cs = Some u \<and> u \<noteq> 0 \<and> t - u < ct)"
  by (auto simp: cacheHit_def isCacheValid_def split: option.splits)

lemma execute_hit_effect:
  assumes hit: "cacheHit (sharedStore w) (resolvedTaskKey (hooks w h)) (cacheTime opts) t = Some cs"
  shows "snd (execute h opts as t w) = Returned (data cs)"
    and "actionCalls (hooks (fst (execute h opts as t w)) h) = actionCalls (hooks w h)"
    and "requestIdRef (hooks (fst (execute h opts as t w)) h) = requestIdRef (hooks w h)"
    and "sharedStore (fst (execute h opts as t w)) = sharedStore w"
    and "mounted w h \<Longrightarrow> localState (hooks (fst (execute h opts as t w)) h) =
           \<lparr>data = data cs, loading = False, error = error cs, retryCount = retryCount cs,
            lastUpdated = lastUpdated cs\<rparr>"
  unfolding execute_hit[OF hit] by (simp_all add: useCache_def mounted_def)

lemma execute_miss_effect:
  assumes miss: "cacheHit (sharedStore w) (resolvedTaskKey (hooks w h)) (cacheTime opts) t = None"
  shows "\<exists>c. snd (execute h opts as t w) = Awaiting c"
    and "actionCalls (hooks (fst (execute h opts as t w)) h) = actionCalls (hooks w h) + 1"
    and "requestIdRef (hooks (fst (execute h opts as t w)) h) = requestIdRef (hooks w h) + 1"
  unfolding execute_miss[OF miss]
  by (cases "resolvedTaskKey (hooks w h)"; auto simp: ifKey_simps)+

lemma execute_hit_effect_r1:
  assumes key: "resolveTaskKey (taskKey opts) as = Inr key"
      and hit: "cacheHit (sharedStore w) key (cacheTime opts) t = Some cs"
  shows "snd (execute_r1 h opts as t w) = Returned (data cs)"
    and "actionCalls (hooks (fst (execute_r1 h opts as t w)) h) = actionCalls (hooks w h)"
    and "requestIdRef (hooks (fst (execute_r1 h opts as t w)) h) = requestIdRef (hooks w h)"
    and "sharedStore (fst (execute_r1 h opts as t w)) = sharedStore w"
    and "mounted w h \<Longrightarrow> localState (hooks (fst (execute_r1 h opts as t w)) h) =
           \<lparr>data = data cs, loading = False, error = error cs, retryCount = retryCount cs,
            lastUpdated = lastUpdated cs\<rparr>"
  unfolding execute_hit_r1[OF key hit] by (simp_all add: useCache_def mounted_def)

lemma execute_miss_effect_r1:
  assumes key: "resolveTaskKey (taskKey opts) as = Inr key"
      and miss: "cacheHit (sharedStore w) key (cacheTime opts) t = None"
  shows "\<exists>c. snd (execute_r1 h opts as t w) = Awaiting c"
    and "actionCalls (hooks (fst (execute_r1 h opts as t w)) h) = actionCalls (hooks w h) + 1"
    and "requestIdRef (hooks (fst (execute_r1 h opts as t w)) h) = requestIdRef (hooks w h) + 1"
  unfolding execute_miss_r1[OF key miss]
  by (cases key; auto simp: ifKey_simps)+

lemma keyedFailedWorld_fields:
  "getState (sharedStore keyedFailedWorld) ''K'' = Some (errorEntry ''boom'' 0 200 1)"
  "actionCalls (hooks keyedFailedWorld 0) = 1"
  "requestIdRef (hooks keyedFailedWorld 0) = 1"
  "resolvedTaskKey (hooks keyedFailedWorld 0) = Some ''K''"
  "mounted keyedFailedWorld 0"
  by (simp_all add: keyedFailedWorld_def keyedCall_def execute_def performAction_def
        performAction_settled_def Let_def cacheHit_def ifKey_def setLoading_def
        abortCurrent_def clearAbortController_def errorState_def errorEntry_def
        someOptions_def getState_def keyedWorld_fields initialHook_def createInitialState_def
        asyncState_def mounted_def)

lemma keyedSucceededWorld_fields:
  "getState (sharedStore keyedSucceededWorld) ''K'' = Some (successEntry 4 200 1)"
  "actionCalls (hooks keyedSucceededWorld 0) = 1"
  "requestIdRef (hooks keyedSucceededWorld 0) = 1"
  "resolvedTaskKey (hooks keyedSucceededWorld 0) = Some ''K''"
  by (simp_all add: keyedSucceededWorld_def keyedCall_def execute_def performAction_def
        performAction_settled_def Let_def cacheHit_def ifKey_def setLoading_def
        abortCurrent_def clearAbortController_def successState_def successEntry_def
        someOptions_def getState_def keyedWorld_fields initialHook_def createInitialState_def
        asyncState_def mounted_def)

text \<open>
  After a successful result the cache does what C8 says: the call at 100 of the keyed
  instance (\<^verbatim>\<open>cacheTime = 1000\<close>) fulfils with 4 at 200; the call at 300 returns 4 without
  calling the action or taking a generation, and the call at 1200, when the window is over,
  calls the action.
\<close>

lemma success_entry_short_circuits:
  "snd (execute 0 (someOptions 0 1000 :: (unit, string) options) () 300 keyedSucceededWorld)
     = Returned (Some 4)
   \<and> actionCalls (hooks (fst (execute 0 (someOptions 0 1000 :: (unit, string) options) () 300
        keyedSucceededWorld)) 0) = actionCalls (hooks keyedSucceededWorld 0)
   \<and> requestIdRef (hooks (fst (execute 0 (someOptions 0 1000 :: (unit, string) options) () 300
        keyedSucceededWorld)) 0) = requestIdRef (hooks keyedSucceededWorld 0)
   \<and> cacheHit (sharedStore keyedSucceededWorld) (Some ''K'') 1000 1200 = None"
  by (simp add: keyedSucceededWorld_fields execute_def Let_def cacheHit_def isCacheValid_def
        useCache_def successEntry_def someOptions_def)

text \<open>
  C8 fails on the code where it says that an entry produced by a terminal failure does not
  cause a short-circuit. The call at 100 of the keyed instance (\<^verbatim>\<open>cacheTime = 1000\<close>) ends
  in a terminal failure at 200, which writes a store entry with \<^verbatim>\<open>error\<close> set, no
  \<^verbatim>\<open>data\<close> and \<^verbatim>\<open>lastUpdated = 200\<close>; the next call at 300 returns at once with nothing
  (\<^verbatim>\<open>cachedState.data as T\<close> of an entry without data), does not call the action and
  takes no generation.
\<close>

theorem failure_entry_short_circuits:
  "getState (sharedStore keyedFailedWorld) ''K'' = Some (errorEntry ''boom'' 0 200 1)
   \<and> snd (execute 0 (someOptions 0 1000 :: (unit, string) options) () 300 keyedFailedWorld)
       = Returned None
   \<and> actionCalls (hooks (fst (execute 0 (someOptions 0 1000 :: (unit, string) options) () 300
        keyedFailedWorld)) 0) = actionCalls (hooks keyedFailedWorld 0)
   \<and> requestIdRef (hooks (fst (execute 0 (someOptions 0 1000 :: (unit, string) options) () 300
        keyedFailedWorld)) 0) = requestIdRef (hooks keyedFailedWorld 0)"
  by (simp add: keyedFailedWorld_fields execute_def Let_def cacheHit_def isCacheValid_def
        useCache_def errorEntry_def someOptions_def)


section \<open>The subscription of an instance\<close>

text \<open>
  The second revision subscribes for the resolved key itself and first pulls the entry the
  store has for it (a resolved key that is the empty string is falsy everywhere in the
  hook and counts as no key).
\<close>

lemma subscribeEffect_resolved_key:
  assumes "resolvedTaskKey (hooks w h) = Some k" "k \<noteq> []"
  shows "h \<in> set (subscribersOf (sharedStore (subscribeEffect h w)) k)"
    and "k' \<noteq> k \<Longrightarrow> subscribersOf (sharedStore (subscribeEffect h w)) k'
                        = subscribersOf (sharedStore w) k'"
    and "localState (hooks (subscribeEffect h w) h) =
           (case getState (sharedStore w) k of
              None \<Rightarrow> localState (hooks w h)
            | Some existingState \<Rightarrow> asyncState existingState)"
  using assms
  by (auto simp: subscribeEffect_def ifKey_def Let_def subscribersOf_subscribe asyncState_def
        split: option.splits)

lemma subscribersOf_no_listeners:
  "subscribersOf \<lparr>globalStore = g, listeners = Map.empty\<rparr> k = []"
  by (simp add: subscribersOf_def)

lemma subscribeEffect_resolved_key_example:
  "resolveTaskKey (Some (Derived (\<lambda>u :: unit. Inr ''user-1'' :: string + key))) ()
     = Inr (Some ''user-1'')
   \<and> subscribersOf (sharedStore (subscribeEffect 0
        (setHook 0 (\<lambda>c. c\<lparr>resolvedTaskKey := Some ''user-1''\<rparr>) userWorld))) ''user-1'' = [0]
   \<and> localState (hooks (subscribeEffect 0
        (setHook 0 (\<lambda>c. c\<lparr>resolvedTaskKey := Some ''user-1''\<rparr>) userWorld)) 0)
       = \<lparr>data = Some 5, loading = False, error = None, retryCount = 0,
          lastUpdated = Some 50\<rparr>"
  by (simp add: resolveTaskKey_def subscribeEffect_def ifKey_def Let_def userWorld_def
        subscribersOf_subscribe subscribersOf_no_listeners
        initialWorld_def initialHook_def emptyStore_def getState_def successEntry_def)

text \<open>
  C7 fails on the first revision. With \<^verbatim>\<open>taskKey = (id) => `user-${id}`\<close> a call
  \<^verbatim>\<open>execute("1")\<close> resolves the key \<^verbatim>\<open>user-1\<close>, but the subscribe effect of the instance
  subscribes it for the fixed string \<^verbatim>\<open>__dynamic__\<close>: the key \<^verbatim>\<open>user-1\<close> has no listener,
  and the entry that the store already holds for \<^verbatim>\<open>user-1\<close> is not pulled into the local
  state, which stays initial.
\<close>

theorem subscription_placeholder_r1:
  "resolveTaskKey (Some userKey) ''1'' = Inr (Some ''user-1'')
   \<and> getState (sharedStore userWorld) ''user-1'' = Some (successEntry 5 50 1)
   \<and> subscribersOf (sharedStore (subscribeEffect_r1 0 (Some userKey) userWorld)) ''user-1'' = []
   \<and> subscribersOf (sharedStore (subscribeEffect_r1 0 (Some userKey) userWorld)) ''__dynamic__''
       = [0]
   \<and> localState (hooks (subscribeEffect_r1 0 (Some userKey) userWorld) 0)
       = \<lparr>data = None, loading = False, error = None, retryCount = 0, lastUpdated = None\<rparr>"
  by (simp add: resolveTaskKey_def userKey_def subscribeEffect_r1_def subscriptionKey_r1_def
        userWorld_def subscribersOf_subscribe subscribersOf_no_listeners
        initialWorld_def initialHook_def emptyStore_def getState_def createInitialState_def
        asyncState_def)

section \<open>Cache validity\<close>

text \<open>
  Where \<^verbatim>\<open>lastUpdated\<close> is not 0, \<^verbatim>\<open>isCacheValid\<close> is as C4 says: false without a state,
  without \<^verbatim>\<open>lastUpdated\<close> or with \<^verbatim>\<open>cacheTime \<le> 0\<close>, and otherwise the strict comparison;
  at the boundary \<^verbatim>\<open>lastUpdated = now - cacheTime\<close> it is false, one millisecond later true.
\<close>

lemma isCacheValid_nonzero:
  "isCacheValid None ct now = False"
  "lastUpdated st = None \<Longrightarrow> isCacheValid (Some st) ct now = False"
  "ct \<le> 0 \<Longrightarrow> isCacheValid (Some st) ct now = False"
  "lastUpdated st = Some u \<Longrightarrow> u \<noteq> 0 \<Longrightarrow> 0 < ct \<Longrightarrow>
     isCacheValid (Some st) ct now = (now - u < ct)"
  "lastUpdated st = Some (now - ct) \<Longrightarrow> isCacheValid (Some st) ct now = False"
  "lastUpdated st = Some (now - ct + 1) \<Longrightarrow> now - ct + 1 \<noteq> 0 \<Longrightarrow> 0 < ct \<Longrightarrow>
     isCacheValid (Some st) ct now = True"
  by (simp_all add: isCacheValid_def split: option.splits)

text \<open>
  C4 fails on the code for a state whose \<^verbatim>\<open>lastUpdated\<close> is the number 0: the test
  \<^verbatim>\<open>!state.lastUpdated\<close> takes 0 for absent. With \<^verbatim>\<open>cacheTime = 1000\<close> at time 500 the
  state is within the window (500 - 0 < 1000), and with \<^verbatim>\<open>cacheTime = 1000\<close> at time 999
  it is the claim's own boundary case \<^verbatim>\<open>lastUpdated = now - cacheTime + 1\<close>; the function
  returns false in both.
\<close>

theorem isCacheValid_zero_timestamp:
  "isCacheValid (Some ((createInitialState 0 :: (nat, string) TaskState)\<lparr>lastUpdated := Some 0\<rparr>))
      1000 500 = False
   \<and> (500 :: int) - 0 < 1000
   \<and> isCacheValid (Some ((createInitialState 0 :: (nat, string) TaskState)
        \<lparr>lastUpdated := Some (999 - 1000 + 1)\<rparr>)) 1000 999 = False"
  by (simp add: isCacheValid_def createInitialState_def)

end
